theory Spec2Isabelle
  imports Main "HOL-Library.Sublist" "HOL-Library.AList"
begin

section \<open>Python strings and regular expressions\<close>

text \<open>
  Text is modelled as \<^typ>\<open>string\<close>, one \<^typ>\<open>char\<close> per code point, for ASCII
  documents: the character classes below are the ASCII members of the classes that
  Python's \<^verbatim>\<open>str\<close> methods and the \<^verbatim>\<open>re\<close> module use.
\<close>

definition code :: "char \<Rightarrow> nat" where
  "code c = of_char c"

text \<open>\<^verbatim>\<open>str.isspace\<close>, \<^verbatim>\<open>\s\<close>, and what \<^verbatim>\<open>strip()\<close> and \<^verbatim>\<open>split()\<close> remove:
  tab, line feed, vertical tab, form feed, carriage return, the four separators
  0x1C..0x1F and the space.\<close>

definition isspace :: "char \<Rightarrow> bool" where
  "isspace c = ((9 \<le> code c \<and> code c \<le> 13) \<or> (28 \<le> code c \<and> code c \<le> 32))"

definition isdigit :: "char \<Rightarrow> bool" where
  "isdigit c = (48 \<le> code c \<and> code c \<le> 57)"

definition isupper :: "char \<Rightarrow> bool" where
  "isupper c = (65 \<le> code c \<and> code c \<le> 90)"

definition islower :: "char \<Rightarrow> bool" where
  "islower c = (97 \<le> code c \<and> code c \<le> 122)"

definition isalpha :: "char \<Rightarrow> bool" where
  "isalpha c = (isupper c \<or> islower c)"

definition isalnum :: "char \<Rightarrow> bool" where
  "isalnum c = (isalpha c \<or> isdigit c)"

text \<open>\<^verbatim>\<open>\w\<close>\<close>

definition isword :: "char \<Rightarrow> bool" where
  "isword c = (isalnum c \<or> c = CHR ''_'')"

text \<open>\<^verbatim>\<open>s.isdigit()\<close> and \<^verbatim>\<open>s.isalnum()\<close>: false on the empty string.\<close>

definition str_isdigit :: "string \<Rightarrow> bool" where
  "str_isdigit s = (s \<noteq> [] \<and> list_all isdigit s)"

definition str_isalnum :: "string \<Rightarrow> bool" where
  "str_isalnum s = (s \<noteq> [] \<and> list_all isalnum s)"

definition lower_char :: "char \<Rightarrow> char" where
  "lower_char c =
     (case map_of (zip ''ABCDEFGHIJKLMNOPQRSTUVWXYZ'' ''abcdefghijklmnopqrstuvwxyz'') c of
        None \<Rightarrow> c
      | Some d \<Rightarrow> d)"

definition lower :: "string \<Rightarrow> string" where
  "lower s = map lower_char s"

text \<open>\<^verbatim>\<open>s.strip()\<close>\<close>

definition strip :: "string \<Rightarrow> string" where
  "strip s = rev (dropWhile isspace (rev (dropWhile isspace s)))"

text \<open>\<^verbatim>\<open>s.split()\<close>: the maximal runs of characters that are not whitespace.\<close>

fun split_from :: "string \<Rightarrow> string \<Rightarrow> string list" where
  "split_from cur [] = (if cur = [] then [] else [cur])"
| "split_from cur (c # cs) =
     (if isspace c then (if cur = [] then split_from [] cs else cur # split_from [] cs)
      else split_from (cur @ [c]) cs)"

definition split :: "string \<Rightarrow> string list" where
  "split s = split_from [] s"

text \<open>\<^verbatim>\<open>sep.join(xs)\<close>\<close>

fun join :: "string \<Rightarrow> string list \<Rightarrow> string" where
  "join sep [] = []"
| "join sep [x] = x"
| "join sep (x # y # ys) = x @ sep @ join sep (y # ys)"

text \<open>\<^verbatim>\<open>s.startswith(p)\<close>, \<^verbatim>\<open>s.endswith(p)\<close> and \<^verbatim>\<open>p in s\<close>\<close>

definition startswith :: "string \<Rightarrow> string \<Rightarrow> bool" where
  "startswith s p = prefix p s"

definition endswith :: "string \<Rightarrow> string \<Rightarrow> bool" where
  "endswith s p = prefix (rev p) (rev s)"

fun contains :: "string \<Rightarrow> string \<Rightarrow> bool" where
  "contains [] p = (p = [])"
| "contains (c # cs) p = (prefix p (c # cs) \<or> contains cs p)"

text \<open>\<^verbatim>\<open>s.replace(c, '')\<close> for a one-character \<^verbatim>\<open>c\<close>\<close>

definition remove_char :: "char \<Rightarrow> string \<Rightarrow> string" where
  "remove_char c s = filter (\<lambda>d. d \<noteq> c) s"

text \<open>\<^verbatim>\<open>repr(s)\<close> of a string: single quotes unless the string holds a single quote
  and no double quote; backslash, the quote, tab, line feed and carriage return are
  escaped, any other control character is written \<^verbatim>\<open>\xNN\<close>.\<close>

definition hex_digit :: "nat \<Rightarrow> char" where
  "hex_digit n = ''0123456789abcdef'' ! (n mod 16)"

definition repr_char :: "char \<Rightarrow> char \<Rightarrow> string" where
  "repr_char q c =
     (if c = q \<or> c = CHR 0x5C then [CHR 0x5C, c]
      else if c = CHR 0x09 then [CHR 0x5C, CHR ''t'']
      else if c = CHR 0x0A then [CHR 0x5C, CHR ''n'']
      else if c = CHR 0x0D then [CHR 0x5C, CHR ''r'']
      else if code c < 32 \<or> code c = 127
        then [CHR 0x5C, CHR ''x'', hex_digit (code c div 16), hex_digit (code c)]
      else [c])"

definition repr :: "string \<Rightarrow> string" where
  "repr s =
     (let q = (if CHR 0x27 \<in> set s \<and> CHR 0x22 \<notin> set s then CHR 0x22 else CHR 0x27)
      in [q] @ concat (map (repr_char q) s) @ [q])"

subsection \<open>Regular expressions\<close>

text \<open>
  The patterns of the source are kept as data and matched by derivatives. A pattern is
  its body and whether it ends in \<^verbatim>\<open>$\<close>; all of them are used with \<^verbatim>\<open>re.match\<close>,
  which anchors at the start, so the leading \<^verbatim>\<open>^\<close> is not represented. \<^verbatim>\<open>re.match\<close>
  succeeds when some prefix of the subject is in the language of the body and, for a
  pattern ending in \<^verbatim>\<open>$\<close>, what is left is empty or one final line feed.
\<close>

datatype regex =
    Never
  | Empty
  | Sym "char \<Rightarrow> bool"
  | Seq regex regex
  | Alt regex regex
  | Star regex

fun nullable :: "regex \<Rightarrow> bool" where
  "nullable Never = False"
| "nullable Empty = True"
| "nullable (Sym P) = False"
| "nullable (Seq r s) = (nullable r \<and> nullable s)"
| "nullable (Alt r s) = (nullable r \<or> nullable s)"
| "nullable (Star r) = True"

fun deriv :: "char \<Rightarrow> regex \<Rightarrow> regex" where
  "deriv c Never = Never"
| "deriv c Empty = Never"
| "deriv c (Sym P) = (if P c then Empty else Never)"
| "deriv c (Seq r s) =
     (if nullable r then Alt (Seq (deriv c r) s) (deriv c s) else Seq (deriv c r) s)"
| "deriv c (Alt r s) = Alt (deriv c r) (deriv c s)"
| "deriv c (Star r) = Seq (deriv c r) (Star r)"

datatype pattern = Pattern regex bool

fun match_here :: "regex \<Rightarrow> bool \<Rightarrow> string \<Rightarrow> bool" where
  "match_here r dollar [] = nullable r"
| "match_here r dollar (c # cs) =
     ((nullable r \<and> (\<not> dollar \<or> (c = CHR 0x0A \<and> cs = []))) \<or> match_here (deriv c r) dollar cs)"

fun re_match :: "pattern \<Rightarrow> string \<Rightarrow> bool" where
  "re_match (Pattern r dollar) s = match_here r dollar s"

text \<open>Building blocks: a literal, \<^verbatim>\<open>r+\<close>, \<^verbatim>\<open>r?\<close>, \<^verbatim>\<open>r{n}\<close>, \<^verbatim>\<open>r{n,}\<close>,
  \<^verbatim>\<open>r{n,m}\<close>, a choice of literals, and \<^verbatim>\<open>.\<close> (anything but a line feed).\<close>

definition chr :: "char \<Rightarrow> regex" where
  "chr c = Sym (\<lambda>d. d = c)"

fun lit :: "string \<Rightarrow> regex" where
  "lit [] = Empty"
| "lit (c # cs) = Seq (chr c) (lit cs)"

definition plus :: "regex \<Rightarrow> regex" where
  "plus r = Seq r (Star r)"

definition opt :: "regex \<Rightarrow> regex" where
  "opt r = Alt Empty r"

fun times :: "nat \<Rightarrow> regex \<Rightarrow> regex" where
  "times 0 r = Empty"
| "times (Suc n) r = Seq r (times n r)"

definition at_least :: "nat \<Rightarrow> regex \<Rightarrow> regex" where
  "at_least n r = Seq (times n r) (Star r)"

definition between :: "nat \<Rightarrow> nat \<Rightarrow> regex \<Rightarrow> regex" where
  "between n m r = Seq (times n r) (times (m - n) (opt r))"

fun one_of :: "string list \<Rightarrow> regex" where
  "one_of [] = Never"
| "one_of (w # ws) = Alt (lit w) (one_of ws)"

definition dot :: regex where
  "dot = Sym (\<lambda>c. c \<noteq> CHR 0x0A)"

section \<open>StructuralHTMLConverter\<close>

record config =
  preserve_structure :: bool
  aggressive_cleaning :: bool
  ultra_aggressive :: bool
  simplify_spans :: bool

definition SEMANTIC_CLASS_PATTERNS :: "(string \<times> string list) list" where
  "SEMANTIC_CLASS_PATTERNS =
    [(''layout'', [''header'', ''footer'', ''nav'', ''sidebar'', ''content'', ''main'',
                   ''wrapper'', ''container'']),
     (''component'', [''button'', ''menu'', ''dropdown'', ''modal'', ''tab'', ''accordion'',
                      ''carousel'']),
     (''state'', [''active'', ''disabled'', ''hidden'', ''open'', ''closed'', ''expanded'',
                  ''collapsed'']),
     (''type'', [''primary'', ''secondary'', ''warning'', ''error'', ''success'', ''info''])]"

definition STYLING_PATTERNS :: "pattern list" where
  "STYLING_PATTERNS =
    [Pattern (Seq (plus (Sym isword)) (Seq (chr (CHR ''-'')) (plus (Sym isdigit)))) True,
     Pattern (Seq (plus (Sym islower)) (plus (Sym isdigit))) True,
     Pattern (one_of [''red'', ''blue'', ''green'', ''yellow'', ''black'', ''white'', ''gray'']) True,
     Pattern (one_of [''small'', ''medium'', ''large'', ''xl'', ''xxl'']) True,
     Pattern (one_of [''left'', ''right'', ''center'', ''justify'']) True,
     Pattern (one_of [''bold'', ''italic'', ''underline'']) True]"

definition AGGRESSIVE_STYLING_PATTERNS :: "pattern list" where
  "AGGRESSIVE_STYLING_PATTERNS =
    [Pattern (lit ''hoverable'') True,
     Pattern (lit ''collapsed'') True,
     Pattern (lit ''collapsible'') True,
     Pattern (lit ''collapser'') True,
     Pattern (lit ''expanded'') True,
     Pattern (lit ''selected'') True,
     Pattern (lit ''active'') True,
     Pattern (lit ''obj'') True,
     Pattern (lit ''array'') True,
     Pattern (lit ''last'') True,
     Pattern (lit ''first'') True,
     Pattern (Seq (lit ''sc-'') (plus (Sym (\<lambda>c. isword c \<or> c = CHR ''-'')))) True,
     Pattern (lit ''react-tabs__'') False,
     Pattern (Seq (lit ''tab-'') (one_of [''error'', ''success'', ''warning''])) True,
     Pattern (Seq (Star dot) (Seq (at_least 3 (Sym isupper)) (at_least 2 (Sym islower)))) True,
     Pattern (Seq (between 2 5 (Sym islower)) (between 2 5 (Sym isupper))) True,
     Pattern (times 6 (Sym isalpha)) True]"

definition CORE_ATTRS :: "string list" where
  "CORE_ATTRS = [''id'', ''class'', ''role'']"

definition SEMANTIC_ATTRS :: "string list" where
  "SEMANTIC_ATTRS = [''href'', ''src'', ''alt'', ''title'', ''type'', ''value'', ''name'']"

definition ARIA_ATTRS_PREFIX :: string where
  "ARIA_ATTRS_PREFIX = ''aria-''"

definition DATA_ATTRS_PREFIX :: string where
  "DATA_ATTRS_PREFIX = ''data-''"

definition REMOVE_TAGS :: "string list" where
  "REMOVE_TAGS = [''script'', ''style'', ''noscript'', ''iframe'', ''embed'', ''object'']"

definition is_semantic_class :: "config \<Rightarrow> string \<Rightarrow> bool" where
  "is_semantic_class self class_name =
     (let class_lower = lower class_name in
      if list_ex (\<lambda>p. re_match p class_lower) STYLING_PATTERNS then False
      else if ultra_aggressive self
              \<and> list_ex (\<lambda>p. re_match p class_name) AGGRESSIVE_STYLING_PATTERNS then False
      else if list_ex (\<lambda>(category, patterns). list_ex (contains class_lower) patterns)
                SEMANTIC_CLASS_PATTERNS then True
      else length class_name > 2 \<and> \<not> str_isdigit class_name)"


subsection \<open>The parsed document and the output tree\<close>

text \<open>
  An attribute value of the parser is a string or, for a multi-valued attribute such as
  \<^verbatim>\<open>class\<close>, a list of tokens. A node is a \<^verbatim>\<open>Tag\<close> with its name, its attributes in
  order (a dict: the names are distinct) and its children, or a \<^verbatim>\<open>NavigableString\<close>.
  \<open>Comment\<close> stands for the subclasses of \<^verbatim>\<open>NavigableString\<close> (comments, declarations)
  that \<^verbatim>\<open>get_text()\<close> leaves out. Every node of the parser is one of these, so the
  guard \<^verbatim>\<open>if not isinstance(soup_elem, Tag): return\<close> is never taken.
\<close>

datatype attr_value = Str string | Lst "string list"

datatype soup =
    NavigableString string
  | Comment string
  | Tag string "(string \<times> attr_value) list" "soup list"

text \<open>An \<^verbatim>\<open>ET.Element\<close>: tag, \<^verbatim>\<open>attrib\<close> in insertion order, \<^verbatim>\<open>text\<close>
  (\<open>etext\<close>, \<open>None\<close> until it is set) and the child elements.\<close>

datatype xml =
  Element (tag: string) (attrib: "(string \<times> string) list") (etext: "string option")
    (children: "xml list")

datatype error = AttributeError | TypeError | ZeroDivisionError

text \<open>\<^verbatim>\<open>str(v)\<close> of an attribute value\<close>

fun str :: "attr_value \<Rightarrow> string" where
  "str (Str s) = s"
| "str (Lst xs) = ''['' @ join '', '' (map repr xs) @ '']''"

text \<open>Truth value of an attribute value and of an optional string\<close>

fun truthy :: "attr_value \<Rightarrow> bool" where
  "truthy (Str s) = (s \<noteq> [])"
| "truthy (Lst xs) = (xs \<noteq> [])"

fun has_text :: "string option \<Rightarrow> bool" where
  "has_text None = False"
| "has_text (Some s) = (s \<noteq> [])"

text \<open>What both builders write for an attribute that is not \<^verbatim>\<open>class\<close>: a list is
  joined with single spaces, then \<^verbatim>\<open>str(v).strip()\<close>.\<close>

definition attr_string :: "attr_value \<Rightarrow> string" where
  "attr_string attr_value =
     strip (str (case attr_value of Lst xs \<Rightarrow> Str (join '' '' xs) | Str s \<Rightarrow> Str s))"

text \<open>\<^verbatim>\<open>elem.set(k, v)\<close>, \<^verbatim>\<open>ET.SubElement\<close> once the child is complete, and the two ways
  the builders add to \<^verbatim>\<open>parent.text\<close>.\<close>

definition set_attr :: "string \<Rightarrow> string \<Rightarrow> xml \<Rightarrow> xml" where
  "set_attr k v e = Element (tag e) (AList.update k v (attrib e)) (etext e) (children e)"

definition set_text :: "string \<Rightarrow> xml \<Rightarrow> xml" where
  "set_text t e = Element (tag e) (attrib e) (Some t) (children e)"

definition append_child :: "xml \<Rightarrow> xml \<Rightarrow> xml" where
  "append_child child e = Element (tag e) (attrib e) (etext e) (children e @ [child])"

definition add_text :: "string \<Rightarrow> string \<Rightarrow> xml \<Rightarrow> xml" where
  "add_text sep t e =
     (if has_text (etext e) then set_text (the (etext e) @ sep @ t) e else set_text t e)"

text \<open>\<^verbatim>\<open>tag.get_text()\<close>: the strings below a node, in document order.\<close>

fun get_text :: "soup \<Rightarrow> string"
  and get_text_list :: "soup list \<Rightarrow> string" where
  "get_text (NavigableString s) = s"
| "get_text (Comment s) = []"
| "get_text (Tag name attrs kids) = get_text_list kids"
| "get_text_list [] = []"
| "get_text_list (k # ks) = get_text k @ get_text_list ks"

subsection \<open>Classes and attributes\<close>

definition should_remove_img :: "(string \<times> attr_value) list \<Rightarrow> error + bool" where
  "should_remove_img attrs =
     (case (case map_of attrs ''src'' of None \<Rightarrow> Str [] | Some v \<Rightarrow> v) of
        Lst xs \<Rightarrow> Inl AttributeError
      | Str src \<Rightarrow> Inr (startswith src ''data:'' \<and> length src > 1000))"

definition should_remove_single_hash_class :: "config \<Rightarrow> attr_value \<Rightarrow> bool" where
  "should_remove_single_hash_class self classes =
     (if \<not> ultra_aggressive self then False
      else let class_string = strip (str classes) in
        if CHR '' '' \<in> set class_string then False
        else length class_string = 6 \<and> str_isalnum class_string)"

definition clean_class_attribute :: "config \<Rightarrow> attr_value \<Rightarrow> string option" where
  "clean_class_attribute self classes =
     (if \<not> truthy classes then None
      else if should_remove_single_hash_class self classes then None
      else let class_list = (case classes of Lst xs \<Rightarrow> xs | Str s \<Rightarrow> split s);
               semantic_classes = filter (is_semantic_class self) class_list
           in if semantic_classes \<noteq> [] then Some (join '' '' semantic_classes) else None)"

definition react_tabs_id :: pattern where
  "react_tabs_id = Pattern (Seq (lit ''react-tabs-'') (plus (Sym isdigit))) True"

definition should_preserve_attribute :: "config \<Rightarrow> string \<Rightarrow> attr_value \<Rightarrow> string \<Rightarrow> bool" where
  "should_preserve_attribute self attr_name attr_value tag_name =
     (let attr_lower = lower attr_name in
      if startswith attr_lower ARIA_ATTRS_PREFIX then False
      else if tag_name = ''span'' \<and> attr_lower = ''class'' then False
      else if attr_lower = ''id'' \<and> ultra_aggressive self \<and> re_match react_tabs_id (str attr_value)
        then False
      else if attr_lower \<in> set CORE_ATTRS \<or> attr_lower \<in> set SEMANTIC_ATTRS then True
      else if startswith attr_lower DATA_ATTRS_PREFIX then
        (if attr_lower = ''data-testid'' then False
         else let data_name = drop 5 attr_lower in
           list_ex (contains data_name) [''id'', ''role'', ''type'', ''section'', ''item''])
      else False)"

subsection \<open>Text\<close>

text \<open>\<^verbatim>\<open>re.sub(r'\s+', ' ', s)\<close>; the flag says that the previous character was whitespace.\<close>

fun sub_spaces :: "bool \<Rightarrow> string \<Rightarrow> string" where
  "sub_spaces prev [] = []"
| "sub_spaces prev (c # cs) =
     (if isspace c then (if prev then sub_spaces True cs else CHR '' '' # sub_spaces True cs)
      else c # sub_spaces False cs)"

text \<open>\<^verbatim>\<open>re.sub(r'\(\s*\)', '', s)\<close> for a pair of brackets \<open>l\<close>, \<open>r\<close>\<close>

function sub_empty_pair :: "char \<Rightarrow> char \<Rightarrow> string \<Rightarrow> string" where
  "sub_empty_pair l r [] = []"
| "sub_empty_pair l r (c # cs) =
     (if c = l then
        (case dropWhile isspace cs of
           [] \<Rightarrow> c # sub_empty_pair l r cs
         | d # ds \<Rightarrow> if d = r then sub_empty_pair l r ds else c # sub_empty_pair l r cs)
      else c # sub_empty_pair l r cs)"
  by pat_completeness auto
termination
proof (relation "measure (\<lambda>(l, r, s). length s)")
  fix l r :: char and c cs d ds
  assume "dropWhile isspace cs = d # ds"
  then have "Suc (length ds) \<le> length cs"
    using length_dropWhile_le[of isspace cs] by simp
  then show "((l, r, ds), (l, r, c # cs)) \<in> measure (\<lambda>(l, r, s). length s)"
    by simp
qed simp_all

text \<open>\<^verbatim>\<open>re.sub(r'[.]{3,}', '...', s)\<close> and \<^verbatim>\<open>re.sub(r'[-]{2,}', '--', s)\<close>: a run of \<open>ch\<close>
  longer than \<open>n\<close> is cut to \<open>n\<close>; \<open>k\<close> counts the run so far.\<close>

fun sub_run :: "char \<Rightarrow> nat \<Rightarrow> nat \<Rightarrow> string \<Rightarrow> string" where
  "sub_run ch n k [] = []"
| "sub_run ch n k (c # cs) =
     (if c = ch then (if k < n then c # sub_run ch n (Suc k) cs else sub_run ch n k cs)
      else c # sub_run ch n 0 cs)"

definition aggressive_text_clean :: "string \<Rightarrow> string" where
  "aggressive_text_clean text0 =
     (if text0 = [] then []
      else let t1 = sub_spaces False (strip text0);
               t2 = sub_empty_pair (CHR ''('') (CHR '')'') t1;
               t3 = sub_empty_pair (CHR ''['') (CHR '']'') t2;
               t4 = sub_run (CHR ''.'') 3 0 t3;
               t5 = sub_run (CHR ''-'') 2 0 t4
           in strip t5)"

subsection \<open>The structural tree builder\<close>

definition should_simplify_span :: "config \<Rightarrow> (string \<times> attr_value) list \<Rightarrow> soup list \<Rightarrow> bool" where
  "should_simplify_span self attrs kids =
     (if \<not> simplify_spans self then False
      else if list_ex (\<lambda>(attr_name, v). should_preserve_attribute self attr_name v ''span'') attrs
        then False
      else let text_content = strip (get_text_list kids) in
        if text_content \<in> set ['','', ''{'', ''}'', ''['', '']'', '':'', ''('', '')'', '';''] then True
        else if (startswith text_content [CHR 0x22] \<and> endswith text_content [CHR 0x22])
                \<or> str_isdigit (remove_char (CHR ''-'') (remove_char (CHR ''.'') text_content))
                \<or> text_content \<in> set [''true'', ''false'', ''null'']
          then True
        else False)"

text \<open>The loop over \<^verbatim>\<open>soup_elem.attrs.items()\<close> of \<^verbatim>\<open>process_element\<close>.\<close>

fun copy_attributes :: "config \<Rightarrow> string \<Rightarrow> (string \<times> attr_value) list \<Rightarrow> xml \<Rightarrow> xml" where
  "copy_attributes self tag_name [] xml_elem = xml_elem"
| "copy_attributes self tag_name ((attr_name, attr_value) # rest) xml_elem =
     copy_attributes self tag_name rest
       (if should_preserve_attribute self attr_name attr_value tag_name then
          (if attr_name = ''class'' then
             (case clean_class_attribute self attr_value of
                None \<Rightarrow> xml_elem
              | Some cleaned_classes \<Rightarrow>
                  if cleaned_classes \<noteq> [] then set_attr ''class'' cleaned_classes xml_elem
                  else xml_elem)
           else
             (let v = attr_string attr_value
              in if v \<noteq> [] then set_attr attr_name v xml_elem else xml_elem))
        else xml_elem)"

fun process_element :: "config \<Rightarrow> soup \<Rightarrow> xml \<Rightarrow> error + xml"
  and process_children :: "config \<Rightarrow> soup list \<Rightarrow> xml \<Rightarrow> error + xml" where
  "process_element self (NavigableString s) parent =
     (let t = aggressive_text_clean s
      in Inr (if t \<noteq> [] then add_text '' '' t parent else parent))"
| "process_element self (Comment s) parent =
     (let t = aggressive_text_clean s
      in Inr (if t \<noteq> [] then add_text '' '' t parent else parent))"
| "process_element self (Tag name attrs kids) parent =
     (if name \<in> set REMOVE_TAGS then Inr parent
      else case (if name = ''img'' then should_remove_img attrs else Inr False) of
        Inl e \<Rightarrow> Inl e
      | Inr True \<Rightarrow> Inr parent
      | Inr False \<Rightarrow>
          if name = ''span'' \<and> should_simplify_span self attrs kids then
            (let t = aggressive_text_clean (get_text_list kids)
             in Inr (if t \<noteq> [] then add_text [] t parent else parent))
          else
            (case process_children self kids
                    (copy_attributes self name attrs (Element name [] None [])) of
               Inl e \<Rightarrow> Inl e
             | Inr xml_elem \<Rightarrow> Inr (append_child xml_elem parent)))"
| "process_children self [] xml_elem = Inr xml_elem"
| "process_children self (child # rest) xml_elem =
     (case process_element self child xml_elem of
        Inl e \<Rightarrow> Inl e
      | Inr xml_elem' \<Rightarrow> process_children self rest xml_elem')"

text \<open>What the parser guarantees for \<^verbatim>\<open>src\<close>: it is not a multi-valued attribute, so
  its value, when present, is a string on every tag of the document.\<close>

fun src_is_str :: "soup \<Rightarrow> bool"
  and src_is_str_list :: "soup list \<Rightarrow> bool" where
  "src_is_str (NavigableString s) = True"
| "src_is_str (Comment s) = True"
| "src_is_str (Tag name attrs kids) =
     ((case map_of attrs ''src'' of Some (Lst xs) \<Rightarrow> False | _ \<Rightarrow> True) \<and> src_is_str_list kids)"
| "src_is_str_list [] = True"
| "src_is_str_list (k # ks) = (src_is_str k \<and> src_is_str_list ks)"

subsection \<open>Statistics\<close>

text \<open>
  \<^verbatim>\<open>len(s.encode("utf-8"))\<close>: one byte for each character of an ASCII text. The
  percentage is a Python float: the division of two ints and the product of a float and
  an int are the parameters \<open>fdiv\<close> and \<open>fmul\<close>. Dividing by the int 0 raises
  \<^verbatim>\<open>ZeroDivisionError\<close>.
\<close>

definition utf8_size :: "string \<Rightarrow> int" where
  "utf8_size s = int (length s)"

record 'f stats =
  original_size :: int
  new_size :: int
  reduction_percent :: 'f
  reduction_bytes :: int

definition get_stats ::
  "(int \<Rightarrow> int \<Rightarrow> 'f) \<Rightarrow> ('f \<Rightarrow> int \<Rightarrow> 'f) \<Rightarrow> string \<Rightarrow> string \<Rightarrow> error + 'f stats" where
  "get_stats fdiv fmul original_html xml_string =
     (let original = utf8_size original_html;
          new = utf8_size xml_string
      in if original = 0 then Inl ZeroDivisionError
         else Inr \<lparr>original_size = original, new_size = new,
                   reduction_percent = fmul (fdiv (original - new) original) 100,
                   reduction_bytes = original - new\<rparr>)"


section \<open>HTMLToXMLConverter\<close>

text \<open>
  The semantic-mapping converter. Its \<^verbatim>\<open>process_element\<close> is \<open>xprocess_element\<close>
  here, and the configuration that \<^verbatim>\<open>__init__\<close> builds is an \<open>xconfig\<close>; the other
  methods keep their names.
\<close>

record xconfig =
  preserve_attrs :: "string set"
  preserve_all_data_attrs :: bool

definition PRESERVE_ATTRS :: "string set" where
  "PRESERVE_ATTRS =
     {''id'', ''name'', ''href'', ''src'', ''alt'', ''title'', ''type'', ''value'', ''action'',
      ''method'', ''rel'', ''target'', ''colspan'', ''rowspan'', ''role'', ''aria-label'',
      ''aria-labelledby'', ''aria-controls'', ''data-section-id'', ''data-item-id'',
      ''data-role''}"

definition UNWRAP_TAGS :: "string list" where
  "UNWRAP_TAGS = [''font'', ''center'', ''b'', ''i'', ''u'', ''s'', ''strike'']"

definition TAG_MAPPINGS :: "(string \<times> string) list" where
  "TAG_MAPPINGS =
     [(''div'', ''section''), (''span'', ''text''), (''b'', ''strong''), (''i'', ''em''),
      (''h1'', ''heading1''), (''h2'', ''heading2''), (''h3'', ''heading3''),
      (''h4'', ''heading4''), (''h5'', ''heading5''), (''h6'', ''heading6'')]"

text \<open>\<^verbatim>\<open>__init__\<close>: the custom names, when given and not empty, are added to a copy of
  \<open>PRESERVE_ATTRS\<close>.\<close>

definition init :: "bool \<Rightarrow> string set option \<Rightarrow> xconfig" where
  "init preserve_all custom_preserve_attrs =
     \<lparr>preserve_attrs =
        (case custom_preserve_attrs of
           None \<Rightarrow> PRESERVE_ATTRS
         | Some custom \<Rightarrow> if custom \<noteq> {} then PRESERVE_ATTRS \<union> custom else PRESERVE_ATTRS),
      preserve_all_data_attrs = preserve_all\<rparr>"

text \<open>\<^verbatim>\<open>html.escape(s, quote=False)\<close>\<close>

definition escape_char :: "char \<Rightarrow> string" where
  "escape_char c =
     (if c = CHR ''&'' then ''&amp;''
      else if c = CHR ''<'' then ''&lt;''
      else if c = CHR ''>'' then ''&gt;''
      else [c])"

definition escape :: "string \<Rightarrow> string" where
  "escape s = concat (map escape_char s)"

definition clean_text :: "string \<Rightarrow> string" where
  "clean_text text0 =
     (if text0 = [] then []
      else escape (strip (sub_spaces False text0)))"

definition should_preserve_attr :: "xconfig \<Rightarrow> string \<Rightarrow> bool" where
  "should_preserve_attr self attr_name =
     (if attr_name \<in> preserve_attrs self then True
      else if preserve_all_data_attrs self \<and> startswith attr_name ''data-'' then True
      else False)"

definition convert_tag_name :: "string \<Rightarrow> string" where
  "convert_tag_name tag_name =
     (case map_of TAG_MAPPINGS tag_name of
        Some mapped \<Rightarrow> mapped
      | None \<Rightarrow>
          map (\<lambda>c. if isalnum c \<or> c = CHR ''_'' \<or> c = CHR ''-'' then c else CHR ''_'') tag_name)"

text \<open>The loop over \<^verbatim>\<open>soup_elem.attrs.items()\<close> of \<^verbatim>\<open>process_element\<close>.\<close>

fun xcopy_attributes :: "xconfig \<Rightarrow> (string \<times> attr_value) list \<Rightarrow> xml \<Rightarrow> xml" where
  "xcopy_attributes self [] xml_elem = xml_elem"
| "xcopy_attributes self ((attr_name, attr_value) # rest) xml_elem =
     xcopy_attributes self rest
       (if should_preserve_attr self attr_name then
          (let v = attr_string attr_value
           in if v \<noteq> [] then set_attr attr_name v xml_elem else xml_elem)
        else xml_elem)"

fun xprocess_element :: "xconfig \<Rightarrow> soup \<Rightarrow> xml \<Rightarrow> xml"
  and xprocess_children :: "xconfig \<Rightarrow> soup list \<Rightarrow> xml \<Rightarrow> xml" where
  "xprocess_element self (NavigableString s) parent =
     (let t = clean_text s in if t \<noteq> [] then add_text '' '' t parent else parent)"
| "xprocess_element self (Comment s) parent =
     (let t = clean_text s in if t \<noteq> [] then add_text '' '' t parent else parent)"
| "xprocess_element self (Tag name attrs kids) parent =
     (if name \<in> set REMOVE_TAGS then parent
      else if name \<in> set UNWRAP_TAGS then xprocess_children self kids parent
      else
        (let e1 = xcopy_attributes self attrs (Element (convert_tag_name name) [] None []);
             e2 = (if name = ''a'' \<and> ''href'' \<notin> fst ` set (attrib e1)
                   then set_attr ''href'' [] e1 else e1);
             has_children = (kids \<noteq> []);
             e3 = xprocess_children self kids e2;
             e4 = (if \<not> has_children \<and> \<not> has_text (etext e3) then set_text [] e3 else e3)
         in append_child e4 parent))"
| "xprocess_children self [] xml_elem = xml_elem"
| "xprocess_children self (child # rest) xml_elem =
     xprocess_children self rest (xprocess_element self child xml_elem)"

subsection \<open>Metadata\<close>

text \<open>\<^verbatim>\<open>tag.find(name)\<close> and \<^verbatim>\<open>tag.find_all(name)\<close> over the children of a tag: the
  first, and all, descendant tags of that name in document order.\<close>

fun find :: "string \<Rightarrow> soup list \<Rightarrow> soup option" where
  "find name [] = None"
| "find name (NavigableString s # rest) = find name rest"
| "find name (Comment s # rest) = find name rest"
| "find name (Tag n attrs kids # rest) =
     (if n = name then Some (Tag n attrs kids)
      else case find name kids of Some t \<Rightarrow> Some t | None \<Rightarrow> find name rest)"

fun find_all :: "string \<Rightarrow> soup list \<Rightarrow> soup list" where
  "find_all name [] = []"
| "find_all name (NavigableString s # rest) = find_all name rest"
| "find_all name (Comment s # rest) = find_all name rest"
| "find_all name (Tag n attrs kids # rest) =
     (if n = name then [Tag n attrs kids] else []) @ find_all name kids @ find_all name rest"

text \<open>\<^verbatim>\<open>tag.get(k)\<close> and \<^verbatim>\<open>a or b\<close> on optional attribute values\<close>

fun get :: "soup \<Rightarrow> string \<Rightarrow> attr_value option" where
  "get (Tag n attrs kids) k = map_of attrs k"
| "get other k = None"

fun truthy_opt :: "attr_value option \<Rightarrow> bool" where
  "truthy_opt None = False"
| "truthy_opt (Some v) = truthy v"

definition py_or :: "attr_value option \<Rightarrow> attr_value option \<Rightarrow> attr_value option" where
  "py_or a b = (if truthy_opt a then a else b)"

text \<open>The metadata dict, in insertion order. One turn of the loop over the
  \<^verbatim>\<open>meta\<close> tags: a list cannot be a key of a dict.\<close>

type_synonym metadata = "(string \<times> attr_value) list"

definition record_meta :: "soup \<Rightarrow> metadata \<Rightarrow> error + metadata" where
  "record_meta meta metadata =
     (let name = py_or (get meta ''name'') (get meta ''property'');
          content = get meta ''content''
      in if truthy_opt name \<and> truthy_opt content then
           (case name of
              Some (Str key) \<Rightarrow> Inr (AList.update key (the content) metadata)
            | _ \<Rightarrow> Inl TypeError)
         else Inr metadata)"

fun record_metas :: "soup list \<Rightarrow> metadata \<Rightarrow> error + metadata" where
  "record_metas [] metadata = Inr metadata"
| "record_metas (meta # rest) metadata =
     (case record_meta meta metadata of
        Inl e \<Rightarrow> Inl e
      | Inr metadata' \<Rightarrow> record_metas rest metadata')"

text \<open>\<^verbatim>\<open>extract_metadata(soup)\<close>; the parsed document is given by its top-level nodes.\<close>

definition extract_metadata :: "soup list \<Rightarrow> error + metadata" where
  "extract_metadata soup =
     (case find ''head'' soup of
        None \<Rightarrow> Inr []
      | Some head \<Rightarrow>
          (let head_kids = (case head of Tag n attrs kids \<Rightarrow> kids | _ \<Rightarrow> []);
               metadata = (case find ''title'' head_kids of
                             None \<Rightarrow> []
                           | Some title \<Rightarrow> [(''title'', Str (clean_text (get_text title)))])
           in record_metas (find_all ''meta'' head_kids) metadata))"

section \<open>Normalized text\<close>

text \<open>
  The invariant of the data model, in the spec's words: a text is normalized when it
  has no run of whitespace and no un-escaped \<open>&\<close>, \<open><\<close> or \<open>>\<close>. \<open>escaped\<close> asks
  that \<open><\<close> and \<open>>\<close> do not occur and that every \<open>&\<close> starts one of the three
  entities that \<^verbatim>\<open>html.escape\<close> writes. \<open>trimmed\<close> (no whitespace at either end) is
  what keeps the first property when two texts are joined by a space, so it is part of
  the invariant here.
\<close>

fun no_space_runs :: "string \<Rightarrow> bool" where
  "no_space_runs (a # b # cs) = (\<not> (isspace a \<and> isspace b) \<and> no_space_runs (b # cs))"
| "no_space_runs [a] = True"
| "no_space_runs [] = True"

fun escaped :: "string \<Rightarrow> bool" where
  "escaped [] = True"
| "escaped (c # cs) =
     ((if c = CHR ''&'' then prefix ''amp;'' cs \<or> prefix ''lt;'' cs \<or> prefix ''gt;'' cs
       else c \<noteq> CHR ''<'' \<and> c \<noteq> CHR ''>'')
      \<and> escaped cs)"

definition trimmed :: "string \<Rightarrow> bool" where
  "trimmed t = (t = [] \<or> (\<not> isspace (hd t) \<and> \<not> isspace (last t)))"

definition normalized :: "string \<Rightarrow> bool" where
  "normalized t = (trimmed t \<and> no_space_runs t \<and> escaped t)"

fun texts_normalized :: "xml \<Rightarrow> bool"
  and texts_normalized_list :: "xml list \<Rightarrow> bool" where
  "texts_normalized (Element t a txt kids) =
     ((case txt of None \<Rightarrow> True | Some s \<Rightarrow> normalized s) \<and> texts_normalized_list kids)"
| "texts_normalized_list [] = True"
| "texts_normalized_list (k # ks) = (texts_normalized k \<and> texts_normalized_list ks)"

section \<open>Properties of the class classifier\<close>

lemma contains_length: "contains s p \<Longrightarrow> length p \<le> length s"
  by (induction s) (auto dest: prefix_length_le)

lemma contains_set: "contains s p \<Longrightarrow> set p \<subseteq> set s"
proof (induction s)
  case Nil
  then show ?case by simp
next
  case (Cons c cs)
  then show ?case using set_mono_prefix by fastforce
qed

lemma contains_digits: "list_all isdigit s \<Longrightarrow> contains s p \<Longrightarrow> list_all isdigit p"
  using contains_set unfolding list_all_iff by blast

lemma upper_not_digit: "c \<in> set ''ABCDEFGHIJKLMNOPQRSTUVWXYZ'' \<Longrightarrow> \<not> isdigit c"
  by (auto simp: isdigit_def code_def)

lemma lower_char_id: "c \<notin> set ''ABCDEFGHIJKLMNOPQRSTUVWXYZ'' \<Longrightarrow> lower_char c = c"
  by (simp add: lower_char_def)

lemma lower_char_digit: "isdigit c \<Longrightarrow> lower_char c = c"
  using upper_not_digit lower_char_id by blast

lemma lower_digits: "list_all isdigit s \<Longrightarrow> lower s = s"
  by (induction s) (simp_all add: lower_def lower_char_digit)

lemma length_lower: "length (lower s) = length s"
  by (simp add: lower_def)

lemma semantic_markers_shape:
  "list_all (\<lambda>(category, patterns). list_all (\<lambda>p. 3 \<le> length p \<and> \<not> list_all isdigit p) patterns)
     SEMANTIC_CLASS_PATTERNS"
  by (simp add: SEMANTIC_CLASS_PATTERNS_def isdigit_def code_def)

lemma no_marker:
  assumes "\<And>p. contains s p \<Longrightarrow> length p < 3 \<or> list_all isdigit p"
  shows "\<not> list_ex (\<lambda>(category, patterns). list_ex (contains s) patterns) SEMANTIC_CLASS_PATTERNS"
  using semantic_markers_shape assms unfolding list_all_iff list_ex_iff by fastforce

text \<open>
  C8. A class token of at most two characters, and a token made of digits only, is
  dropped by \<open>is_semantic_class\<close> whatever the configuration: it matches a styling
  pattern, or an aggressive pattern, or it holds no semantic marker (each marker has
  three characters at least and a letter) and fails the final length and digit test.
\<close>

theorem short_or_numeric_token_dropped:
  assumes "length tok \<le> 2 \<or> list_all isdigit tok"
  shows "is_semantic_class self tok = False"
proof -
  have "length p < 3 \<or> list_all isdigit p" if "contains (lower tok) p" for p
    using assms that contains_length[of "lower tok" p] contains_digits[of "lower tok" p]
    by (auto simp: length_lower lower_digits)
  then have none: "\<not> list_ex (\<lambda>(category, patterns). list_ex (contains (lower tok)) patterns)
                       SEMANTIC_CLASS_PATTERNS"
    by (rule no_marker)
  have dflt: "\<not> (length tok > 2 \<and> \<not> str_isdigit tok)"
    using assms by (auto simp: str_isdigit_def)
  show ?thesis
    unfolding is_semantic_class_def Let_def using none dflt by simp
qed

theorem short_or_numeric_token_dropped_witness:
  "length ''ab'' \<le> 2
   \<and> is_semantic_class \<lparr>preserve_structure = True, aggressive_cleaning = True,
        ultra_aggressive = False, simplify_spans = False\<rparr> ''ab'' = False
   \<and> list_all isdigit ''2024''
   \<and> is_semantic_class \<lparr>preserve_structure = True, aggressive_cleaning = True,
        ultra_aggressive = True, simplify_spans = False\<rparr> ''2024'' = False"
proof -
  have d: "list_all isdigit ''2024''" by (simp add: isdigit_def code_def)
  then show ?thesis
    using short_or_numeric_token_dropped[of "''ab''"] short_or_numeric_token_dropped[of "''2024''"]
    by simp
qed

lemmas char_class_defs =
  isword_def isalnum_def isalpha_def isupper_def islower_def isdigit_def isspace_def code_def

lemma styling_examples:
  "list_ex (\<lambda>p. re_match p (lower ''mt-4'')) STYLING_PATTERNS"
  "list_ex (\<lambda>p. re_match p (lower ''Margin10'')) STYLING_PATTERNS"
  "list_ex (\<lambda>p. re_match p (lower ''RED'')) STYLING_PATTERNS"
  "list_ex (\<lambda>p. re_match p (lower ''xxl'')) STYLING_PATTERNS"
  "list_ex (\<lambda>p. re_match p (lower ''justify'')) STYLING_PATTERNS"
  "list_ex (\<lambda>p. re_match p (lower ''underline'')) STYLING_PATTERNS"
  by (simp_all add: STYLING_PATTERNS_def lower_def lower_char_def plus_def chr_def char_class_defs)

text \<open>
  C3. A class token whose lower-cased form matches one of the basic styling patterns
  (\<open>STYLING_PATTERNS\<close>) is dropped by \<open>is_semantic_class\<close>, with the ultra-aggressive
  flag set or not: the styling patterns are tried first.
\<close>

theorem styling_token_dropped:
  assumes "list_ex (\<lambda>p. re_match p (lower tok)) STYLING_PATTERNS"
  shows "is_semantic_class self tok = False"
  using assms by (simp add: is_semantic_class_def)

theorem styling_token_dropped_witness:
  "list_ex (\<lambda>p. re_match p (lower ''mt-4'')) STYLING_PATTERNS
   \<and> is_semantic_class \<lparr>preserve_structure = True, aggressive_cleaning = True,
        ultra_aggressive = False, simplify_spans = False\<rparr> ''mt-4'' = False
   \<and> is_semantic_class \<lparr>preserve_structure = True, aggressive_cleaning = True,
        ultra_aggressive = True, simplify_spans = False\<rparr> ''mt-4'' = False
   \<and> list_ex (\<lambda>p. re_match p (lower ''Margin10'')) STYLING_PATTERNS
   \<and> is_semantic_class \<lparr>preserve_structure = True, aggressive_cleaning = True,
        ultra_aggressive = False, simplify_spans = False\<rparr> ''Margin10'' = False
   \<and> list_ex (\<lambda>p. re_match p (lower ''RED'')) STYLING_PATTERNS
   \<and> is_semantic_class \<lparr>preserve_structure = True, aggressive_cleaning = True,
        ultra_aggressive = True, simplify_spans = False\<rparr> ''RED'' = False
   \<and> list_ex (\<lambda>p. re_match p (lower ''xxl'')) STYLING_PATTERNS
   \<and> is_semantic_class \<lparr>preserve_structure = True, aggressive_cleaning = True,
        ultra_aggressive = False, simplify_spans = False\<rparr> ''xxl'' = False
   \<and> list_ex (\<lambda>p. re_match p (lower ''justify'')) STYLING_PATTERNS
   \<and> is_semantic_class \<lparr>preserve_structure = True, aggressive_cleaning = True,
        ultra_aggressive = True, simplify_spans = False\<rparr> ''justify'' = False
   \<and> list_ex (\<lambda>p. re_match p (lower ''underline'')) STYLING_PATTERNS
   \<and> is_semantic_class \<lparr>preserve_structure = True, aggressive_cleaning = True,
        ultra_aggressive = False, simplify_spans = False\<rparr> ''underline'' = False"
  using styling_examples
    styling_token_dropped[OF styling_examples(1)] styling_token_dropped[OF styling_examples(2)]
    styling_token_dropped[OF styling_examples(3)] styling_token_dropped[OF styling_examples(4)]
    styling_token_dropped[OF styling_examples(5)] styling_token_dropped[OF styling_examples(6)]
  by simp

lemma isalnum_not_space: "isalnum c \<Longrightarrow> c \<noteq> CHR '' ''"
  by (auto simp: char_class_defs)

text \<open>
  C1, as the code has it. The single-hash check belongs to ultra-aggressive mode: when
  the mode is on and the string form of the class attribute, stripped, is exactly six
  alphanumeric characters, \<open>clean_class_attribute\<close> drops the whole attribute; when the
  mode is off the check never fires and the attribute goes on to the per-token filter.
\<close>

theorem single_hash_class_dropped:
  "(ultra_aggressive self \<longrightarrow> length (strip (str classes)) = 6
      \<longrightarrow> list_all isalnum (strip (str classes))
      \<longrightarrow> clean_class_attribute self classes = None)
   \<and> (\<not> ultra_aggressive self \<longrightarrow> \<not> should_remove_single_hash_class self classes)"
proof -
  have "should_remove_single_hash_class self classes"
    if "ultra_aggressive self" "length (strip (str classes)) = 6"
       "list_all isalnum (strip (str classes))"
  proof -
    from that(3) have "CHR '' '' \<notin> set (strip (str classes))"
      using isalnum_not_space by (auto simp: list_all_iff)
    moreover from that(2) have "strip (str classes) \<noteq> []" by auto
    ultimately show ?thesis
      using that by (simp add: should_remove_single_hash_class_def str_isalnum_def)
  qed
  then show ?thesis
    by (auto simp: clean_class_attribute_def should_remove_single_hash_class_def)
qed

theorem single_hash_class_dropped_witness:
  "length (strip (str (Str ''abc12x''))) = 6
   \<and> list_all isalnum (strip (str (Str ''abc12x'')))
   \<and> clean_class_attribute \<lparr>preserve_structure = True, aggressive_cleaning = True,
        ultra_aggressive = True, simplify_spans = False\<rparr> (Str ''abc12x'') = None
   \<and> \<not> should_remove_single_hash_class \<lparr>preserve_structure = True, aggressive_cleaning = True,
        ultra_aggressive = False, simplify_spans = False\<rparr> (Str ''abc12x'')"
proof -
  have s: "strip ''abc12x'' = ''abc12x''" by (simp add: strip_def char_class_defs)
  show ?thesis
    using single_hash_class_dropped[of "\<lparr>preserve_structure = True, aggressive_cleaning = True,
        ultra_aggressive = True, simplify_spans = False\<rparr>" "Str ''abc12x''"]
      single_hash_class_dropped[of "\<lparr>preserve_structure = True, aggressive_cleaning = True,
        ultra_aggressive = False, simplify_spans = False\<rparr>" "Str ''abc12x''"]
    by (simp add: s char_class_defs)
qed

text \<open>With the mode off, the six-character class \<open>navbar\<close> is kept, although
  it is one token of six alphanumeric characters.\<close>

theorem single_hash_class_kept_when_not_ultra:
  "split ''navbar'' = [''navbar''] \<and> length ''navbar'' = 6 \<and> str_isalnum ''navbar''
   \<and> clean_class_attribute \<lparr>preserve_structure = True, aggressive_cleaning = True,
      ultra_aggressive = False, simplify_spans = False\<rparr> (Str ''navbar'') = Some ''navbar''"
  by (simp add: clean_class_attribute_def should_remove_single_hash_class_def split_def
      is_semantic_class_def STYLING_PATTERNS_def SEMANTIC_CLASS_PATTERNS_def str_isalnum_def
      lower_def lower_char_def plus_def chr_def char_class_defs)

section \<open>Properties of the tree builders\<close>

lemma strip_id: "s \<noteq> [] \<Longrightarrow> \<not> isspace (hd s) \<Longrightarrow> \<not> isspace (last s) \<Longrightarrow> strip s = s"
proof -
  assume a: "s \<noteq> []" "\<not> isspace (hd s)" "\<not> isspace (last s)"
  then have "dropWhile isspace s = s" by (cases s) auto
  moreover from a have "dropWhile isspace (rev s) = rev s"
    by (cases "rev s") (auto simp: hd_rev)
  ultimately show ?thesis by (simp add: strip_def)
qed

text \<open>A list of class tokens never passes the single-hash test: its string form is
  the bracketed \<^verbatim>\<open>repr\<close> of the list.\<close>

lemma list_class_never_single_hash:
  "\<not> should_remove_single_hash_class self (Lst xs)"
proof -
  let ?s = "str (Lst xs)"
  have ne: "?s \<noteq> []" by simp
  have h: "hd ?s = CHR ''[''" by simp
  have l: "last ?s = CHR '']''" by simp
  have "strip ?s = ?s"
    using ne by (rule strip_id) (simp_all only: h l, simp_all add: isspace_def code_def)
  moreover have "\<not> isalnum (CHR ''['')" by (simp add: char_class_defs)
  then have "\<not> list_all isalnum ?s" by simp
  ultimately show ?thesis
    by (simp add: should_remove_single_hash_class_def str_isalnum_def del: str.simps)
qed

lemma xml_updates [simp]:
  "tag (set_attr k v e) = tag e" "etext (set_attr k v e) = etext e"
  "children (set_attr k v e) = children e"
  "map_of (attrib (set_attr k v e)) = (map_of (attrib e))(k \<mapsto> v)"
  "tag (set_text t e) = tag e" "attrib (set_text t e) = attrib e"
  "etext (set_text t e) = Some t" "children (set_text t e) = children e"
  "tag (append_child c e) = tag e" "attrib (append_child c e) = attrib e"
  "etext (append_child c e) = etext e" "children (append_child c e) = children e @ [c]"
  "tag (add_text sep t e) = tag e" "attrib (add_text sep t e) = attrib e"
  "children (add_text sep t e) = children e"
  by (simp_all add: set_attr_def set_text_def append_child_def add_text_def update_conv')

lemma add_text_nonempty: "t \<noteq> [] \<Longrightarrow> etext (add_text sep t e) \<noteq> Some []"
  by (simp add: add_text_def)

lemma xcopy_keeps:
  "tag (xcopy_attributes self attrs e) = tag e
   \<and> etext (xcopy_attributes self attrs e) = etext e
   \<and> children (xcopy_attributes self attrs e) = children e"
  by (induction attrs arbitrary: e) (auto simp: Let_def)

lemma xcopy_skips:
  "\<forall>v. (k, v) \<in> set attrs \<longrightarrow> attr_string v = [] \<Longrightarrow>
   map_of (attrib (xcopy_attributes self attrs e)) k = map_of (attrib e) k"
proof (induction attrs arbitrary: e)
  case Nil
  then show ?case by simp
next
  case (Cons a attrs)
  obtain n v where a: "a = (n, v)" by (cases a)
  from Cons.prems have rest: "\<forall>v. (k, v) \<in> set attrs \<longrightarrow> attr_string v = []" by simp
  show ?case
    using Cons.prems by (auto simp: a Let_def Cons.IH[OF rest])
qed

lemma xprocess_keeps:
  "tag (xprocess_element self n p) = tag p \<and> attrib (xprocess_element self n p) = attrib p"
  "tag (xprocess_children self ns p) = tag p \<and> attrib (xprocess_children self ns p) = attrib p"
  by (induction self n p and self ns p rule: xprocess_element_xprocess_children.induct)
     (simp_all add: Let_def)

lemma xprocess_text:
  "etext p \<noteq> Some [] \<Longrightarrow> etext (xprocess_element self n p) \<noteq> Some []"
  "etext p \<noteq> Some [] \<Longrightarrow> etext (xprocess_children self ns p) \<noteq> Some []"
  by (induction self n p and self ns p rule: xprocess_element_xprocess_children.induct)
     (simp_all add: Let_def add_text_nonempty)

text \<open>
  C9. In semantic-mapping mode an anchor for which no \<open>href\<close> survives (no \<open>href\<close>
  attribute, or one whose written value is empty after \<open>strip\<close>) is emitted as an
  element \<open>a\<close> whose \<open>href\<close> is the empty string.
\<close>

theorem anchor_without_href_gets_empty_href:
  assumes "\<forall>v. (''href'', v) \<in> set attrs \<longrightarrow> attr_string v = []"
  shows "\<exists>e. xprocess_element self (Tag ''a'' attrs kids) parent = append_child e parent
           \<and> tag e = ''a'' \<and> map_of (attrib e) ''href'' = Some []"
proof -
  let ?e1 = "xcopy_attributes self attrs (Element (convert_tag_name ''a'') [] None [])"
  have "map_of (attrib ?e1) ''href'' = None"
    using xcopy_skips[OF assms] by simp
  then have no: "''href'' \<notin> fst ` set (attrib ?e1)"
    by (simp add: map_of_eq_None_iff)
  have t: "convert_tag_name ''a'' = ''a''"
    by (simp add: convert_tag_name_def TAG_MAPPINGS_def char_class_defs)
  let ?e3 = "xprocess_children self kids (set_attr ''href'' [] ?e1)"
  let ?e4 = "if kids = [] \<and> \<not> has_text (etext ?e3) then set_text [] ?e3 else ?e3"
  have "xprocess_element self (Tag ''a'' attrs kids) parent = append_child ?e4 parent"
    using no by (auto simp: REMOVE_TAGS_def UNWRAP_TAGS_def Let_def xcopy_keeps)
  moreover have "tag ?e4 = ''a''"
    by (simp add: xprocess_keeps xcopy_keeps t)
  moreover have "map_of (attrib ?e4) ''href'' = Some []"
    by (simp add: xprocess_keeps)
  ultimately show ?thesis by blast
qed

theorem anchor_without_href_gets_empty_href_witness:
  "attr_string (Str ''  '') = []
   \<and> (\<exists>e. xprocess_element (init False None)
              (Tag ''a'' [(''href'', Str ''  ''), (''id'', Str ''top'')] [NavigableString ''Link''])
              (Element ''content'' [] None [])
            = append_child e (Element ''content'' [] None [])
          \<and> tag e = ''a'' \<and> map_of (attrib e) ''href'' = Some [])
   \<and> (\<exists>e. xprocess_element (init False None) (Tag ''a'' [] [NavigableString ''Link''])
              (Element ''content'' [] None [])
            = append_child e (Element ''content'' [] None [])
          \<and> tag e = ''a'' \<and> map_of (attrib e) ''href'' = Some [])"
proof -
  have blank: "attr_string (Str ''  '') = []"
    by (simp add: attr_string_def strip_def char_class_defs)
  then have h: "\<forall>v. (''href'', v) \<in> set [(''href'', Str ''  ''), (''id'', Str ''top'')]
                  \<longrightarrow> attr_string v = []"
    by simp
  have h0: "\<forall>v. (''href'', v) \<in> set [] \<longrightarrow> attr_string v = []" by simp
  show ?thesis
    using blank anchor_without_href_gets_empty_href[OF h] anchor_without_href_gets_empty_href[OF h0]
    by blast
qed

text \<open>
  C7, as the code has it. In semantic-mapping mode an element that is neither removed
  nor unwrapped is emitted, and its text is set to the empty string exactly when the
  input element has no child node at all (\<open>has_children\<close> follows the input children,
  not the output).
\<close>

theorem empty_text_iff_no_input_children:
  assumes "name \<notin> set REMOVE_TAGS" "name \<notin> set UNWRAP_TAGS"
  shows "\<exists>e. xprocess_element self (Tag name attrs kids) parent = append_child e parent
           \<and> (etext e = Some [] \<longleftrightarrow> kids = [])"
proof -
  let ?e1 = "xcopy_attributes self attrs (Element (convert_tag_name name) [] None [])"
  let ?e2 = "if name = ''a'' \<and> ''href'' \<notin> fst ` set (attrib ?e1)
             then set_attr ''href'' [] ?e1 else ?e1"
  let ?e3 = "xprocess_children self kids ?e2"
  let ?e4 = "if kids = [] \<and> \<not> has_text (etext ?e3) then set_text [] ?e3 else ?e3"
  have eq: "xprocess_element self (Tag name attrs kids) parent = append_child ?e4 parent"
    using assms by (simp add: Let_def)
  have t2: "etext ?e2 = None" by (simp add: xcopy_keeps)
  then have t3: "etext ?e3 \<noteq> Some []" by (simp add: xprocess_text)
  have "etext ?e4 = Some [] \<longleftrightarrow> kids = []"
  proof (cases "kids = []")
    case True
    then show ?thesis using t2 by simp
  next
    case False
    then show ?thesis using t3 by simp
  qed
  with eq show ?thesis by blast
qed

theorem empty_text_iff_no_input_children_witness:
  "''br'' \<notin> set REMOVE_TAGS \<and> ''br'' \<notin> set UNWRAP_TAGS
   \<and> (\<exists>e. xprocess_element (init False None) (Tag ''br'' [] []) (Element ''content'' [] None [])
            = append_child e (Element ''content'' [] None [])
          \<and> (etext e = Some [] \<longleftrightarrow> ([] :: soup list) = []))"
proof -
  have a: "''br'' \<notin> set REMOVE_TAGS" by (simp add: REMOVE_TAGS_def)
  have b: "''br'' \<notin> set UNWRAP_TAGS" by (simp add: UNWRAP_TAGS_def)
  show ?thesis
    using a b empty_text_iff_no_input_children[OF a b] by blast
qed

text \<open>A \<open>div\<close> that holds only a \<open>script\<close> is emitted with no child element and
  no text, and its text stays absent.\<close>

theorem childless_output_with_absent_text:
  "xprocess_element (init False None) (Tag ''div'' [] [Tag ''script'' [] [NavigableString ''x'']])
     (Element ''content'' [] None [])
   = Element ''content'' [] None [Element ''section'' [] None []]"
  by (simp add: REMOVE_TAGS_def UNWRAP_TAGS_def convert_tag_name_def TAG_MAPPINGS_def
      append_child_def)

text \<open>
  C2, as the code has it. The structural tree builder omits an \<open>img\<close> whose \<open>src\<close>
  starts with \<open>data:\<close> and is longer than 1000 characters, with all its descendants:
  the parent comes back unchanged. The semantic-mapping builder has no such test.
\<close>

theorem large_data_img_omitted:
  assumes "map_of attrs ''src'' = Some (Str src)" "startswith src ''data:''" "length src > 1000"
  shows "process_element self (Tag ''img'' attrs kids) parent = Inr parent"
  using assms by (simp add: REMOVE_TAGS_def should_remove_img_def)

theorem large_data_img_omitted_witness:
  "map_of [(''src'', Str (''data:'' @ replicate 1000 (CHR ''A''))), (''alt'', Str ''logo'')] ''src''
     = Some (Str (''data:'' @ replicate 1000 (CHR ''A'')))
   \<and> startswith (''data:'' @ replicate 1000 (CHR ''A'')) ''data:''
   \<and> length (''data:'' @ replicate 1000 (CHR ''A'')) > 1000
   \<and> process_element \<lparr>preserve_structure = True, aggressive_cleaning = True,
        ultra_aggressive = False, simplify_spans = False\<rparr>
       (Tag ''img'' [(''src'', Str (''data:'' @ replicate 1000 (CHR ''A''))), (''alt'', Str ''logo'')]
          [NavigableString ''x''])
       (Element ''root'' [] None []) = Inr (Element ''root'' [] None [])"
proof -
  have a: "map_of [(''src'', Str (''data:'' @ replicate 1000 (CHR ''A''))), (''alt'', Str ''logo'')] ''src''
     = Some (Str (''data:'' @ replicate 1000 (CHR ''A'')))" by simp
  have b: "startswith (''data:'' @ replicate 1000 (CHR ''A'')) ''data:''"
    by (simp add: startswith_def)
  have c: "length (''data:'' @ replicate 1000 (CHR ''A'')) > 1000" by simp
  show ?thesis
    using a b c large_data_img_omitted[OF a b c] by blast
qed

text \<open>The semantic-mapping builder emits the same image, with its \<open>src\<close>.\<close>

theorem large_data_img_kept_by_semantic_mapping:
  "startswith (''data:'' @ replicate 1000 (CHR ''A'')) ''data:''
   \<and> length (''data:'' @ replicate 1000 (CHR ''A'')) > 1000
   \<and> xprocess_element (init False None)
       (Tag ''img'' [(''src'', Str (''data:'' @ replicate 1000 (CHR ''A'')))] [])
       (Element ''content'' [] None [])
     = Element ''content'' [] None
         [Element ''img'' [(''src'', ''data:'' @ replicate 1000 (CHR ''A''))] (Some []) []]"
proof -
  have s: "attr_string (Str (''data:'' @ replicate 1000 (CHR ''A''))) = ''data:'' @ replicate 1000 (CHR ''A'')"
    unfolding attr_string_def by (simp add: strip_id char_class_defs)
  have p: "''src'' \<in> preserve_attrs (init False None)"
    by (simp add: init_def PRESERVE_ATTRS_def)
  show ?thesis
    using s p by (simp add: REMOVE_TAGS_def UNWRAP_TAGS_def convert_tag_name_def TAG_MAPPINGS_def
        should_preserve_attr_def startswith_def append_child_def set_attr_def set_text_def
        char_class_defs Let_def)
qed

section \<open>Properties of the statistics\<close>

text \<open>
  C10. \<open>get_stats\<close> (the same method in both converters) divides by the byte length
  of the original text with no guard: for a non-empty original it returns the two
  sizes, their difference as \<open>reduction_bytes\<close> and that difference divided by the
  original size, times 100, as \<open>reduction_percent\<close>; for the empty original the
  division raises \<open>ZeroDivisionError\<close>.
\<close>

theorem get_stats_division:
  "(original_html \<noteq> [] \<longrightarrow>
      get_stats fdiv fmul original_html xml_string =
        Inr \<lparr>original_size = utf8_size original_html, new_size = utf8_size xml_string,
             reduction_percent =
               fmul (fdiv (utf8_size original_html - utf8_size xml_string)
                          (utf8_size original_html)) 100,
             reduction_bytes = utf8_size original_html - utf8_size xml_string\<rparr>)
   \<and> get_stats fdiv fmul [] xml_string = Inl ZeroDivisionError"
  by (simp add: get_stats_def utf8_size_def Let_def)

theorem get_stats_division_witness:
  "''<p>Hi</p>'' \<noteq> []
   \<and> get_stats (\<lambda>a b. (a, b)) (\<lambda>(n, d) k. (n * k, d)) ''<p>Hi</p>'' ''<p/>'' =
        Inr \<lparr>original_size = 9, new_size = 4, reduction_percent = (500, 9), reduction_bytes = 5\<rparr>
   \<and> get_stats (\<lambda>a b. (a, b)) (\<lambda>(n, d) k. (n * k, d)) [] ''<p/>'' = Inl ZeroDivisionError"
  using get_stats_division[of "''<p>Hi</p>''" "\<lambda>a b. (a, b)" "\<lambda>(n, d) k. (n * k, d)" "''<p/>''"]
  by (simp add: utf8_size_def)

section \<open>Properties of the attribute filters\<close>

lemma copy_keeps:
  "tag (copy_attributes self name attrs e) = tag e
   \<and> etext (copy_attributes self name attrs e) = etext e
   \<and> children (copy_attributes self name attrs e) = children e"
  by (induction attrs arbitrary: e) (auto simp: Let_def split: option.splits)

lemma copy_other_key:
  "k \<notin> fst ` set attrs \<Longrightarrow>
   map_of (attrib (copy_attributes self name attrs e)) k = map_of (attrib e) k"
  by (induction attrs arbitrary: e) (auto simp: Let_def split: option.splits)

lemma xcopy_other_key:
  "k \<notin> fst ` set attrs \<Longrightarrow>
   map_of (attrib (xcopy_attributes self attrs e)) k = map_of (attrib e) k"
  by (induction attrs arbitrary: e) (auto simp: Let_def)

lemma preserve_id:
  "should_preserve_attribute self ''id'' (Str x) name
     = (\<not> (ultra_aggressive self \<and> re_match react_tabs_id x))"
  by (simp add: should_preserve_attribute_def lower_def lower_char_def startswith_def
      ARIA_ATTRS_PREFIX_def CORE_ATTRS_def)

lemma attr_string_Str: "attr_string (Str x) = strip x"
  by (simp add: attr_string_def)

lemma copy_id:
  assumes "(''id'', Str x) \<in> set attrs" "distinct (map fst attrs)" "strip x \<noteq> []"
    "should_preserve_attribute self ''id'' (Str x) name"
  shows "map_of (attrib (copy_attributes self name attrs e)) ''id'' = Some (strip x)"
  using assms(1,2)
proof (induction attrs arbitrary: e)
  case Nil
  then show ?case by simp
next
  case (Cons a attrs)
  show ?case
  proof (cases "a = (''id'', Str x)")
    case True
    with Cons.prems have "''id'' \<notin> fst ` set attrs" by auto
    then show ?thesis
      using True assms(3,4) by (simp add: copy_other_key attr_string_Str)
  next
    case False
    with Cons.prems have "(''id'', Str x) \<in> set attrs" "distinct (map fst attrs)" by auto
    then show ?thesis
      by (cases a) (simp add: Cons.IH)
  qed
qed

lemma xcopy_id:
  assumes "(''id'', Str x) \<in> set attrs" "distinct (map fst attrs)" "strip x \<noteq> []"
    "should_preserve_attr self ''id''"
  shows "map_of (attrib (xcopy_attributes self attrs e)) ''id'' = Some (strip x)"
  using assms(1,2)
proof (induction attrs arbitrary: e)
  case Nil
  then show ?case by simp
next
  case (Cons a attrs)
  show ?case
  proof (cases "a = (''id'', Str x)")
    case True
    with Cons.prems have "''id'' \<notin> fst ` set attrs" by auto
    then show ?thesis
      using True assms(3,4) by (simp add: xcopy_other_key attr_string_Str)
  next
    case False
    with Cons.prems have "(''id'', Str x) \<in> set attrs" "distinct (map fst attrs)" by auto
    then show ?thesis
      by (cases a) (simp add: Cons.IH)
  qed
qed

lemma img_test_total:
  "(case map_of attrs ''src'' of Some (Lst xs) \<Rightarrow> False | _ \<Rightarrow> True) \<Longrightarrow>
   \<exists>b. should_remove_img attrs = Inr b"
  by (auto simp: should_remove_img_def split: option.splits attr_value.splits)

lemma process_returns:
  "src_is_str n \<Longrightarrow>
     \<exists>p'. process_element self n p = Inr p' \<and> tag p' = tag p \<and> attrib p' = attrib p"
  "src_is_str_list ns \<Longrightarrow>
     \<exists>p'. process_children self ns p = Inr p' \<and> tag p' = tag p \<and> attrib p' = attrib p"
proof (induction self n p and self ns p rule: process_element_process_children.induct)
  case (1 self s parent)
  then show ?case by (simp add: Let_def)
next
  case (2 self s parent)
  then show ?case by (simp add: Let_def)
next
  case (3 self name attrs kids parent)
  from "3.prems" obtain b where b: "should_remove_img attrs = Inr b"
    using img_test_total[of attrs] by auto
  from "3.prems" have kids: "src_is_str_list kids" by simp
  show ?case
  proof (cases "name \<in> set REMOVE_TAGS \<or> (name = ''img'' \<and> b)
                \<or> (name = ''span'' \<and> should_simplify_span self attrs kids)")
    case True
    then show ?thesis using b by (auto simp: Let_def)
  next
    case False
    let ?e0 = "copy_attributes self name attrs (Element name [] None [])"
    from False have r: "(if name = ''img'' then should_remove_img attrs else Inr False) = Inr False"
      using b by auto
    from False have "\<exists>p'. process_children self kids ?e0 = Inr p' \<and> tag p' = tag ?e0
                       \<and> attrib p' = attrib ?e0"
      using "3.IH"[OF _ r _ _ kids] by auto
    then show ?thesis using False r by auto
  qed
next
  case (4 self xml_elem)
  then show ?case by simp
next
  case (5 self child rest xml_elem)
  from "5.prems" have c: "src_is_str child" and r: "src_is_str_list rest" by simp_all
  from "5.IH"(1)[OF c] obtain p1 where p1: "process_element self child xml_elem = Inr p1"
    "tag p1 = tag xml_elem" "attrib p1 = attrib xml_elem" by auto
  from "5.IH"(2)[OF p1(1) r] show ?case using p1 by auto
qed


lemma init_preserves_id: "should_preserve_attr (init pa custom) ''id''"
  by (simp add: should_preserve_attr_def init_def PRESERVE_ATTRS_def split: option.splits)

text \<open>
  C5, as the code has it. An element that the builder emits (its tag is not in the
  removal set; for the structural builder it is not an oversized image, for the
  semantic-mapping builder it is not in the unwrap set) and that carries an \<open>id\<close>
  whose value is not blank is emitted with that \<open>id\<close>, stripped, under every
  configuration of either converter, with one exception: the structural builder in
  ultra-aggressive mode drops an \<open>id\<close> of the shape \<open>react-tabs-\<close> and digits.
\<close>

theorem id_attribute_preserved:
  assumes "(''id'', Str x) \<in> set attrs" and "distinct (map fst attrs)" and "strip x \<noteq> []"
    and "name \<notin> set REMOVE_TAGS"
  shows "(\<not> (ultra_aggressive self \<and> re_match react_tabs_id x)
            \<longrightarrow> (name = ''img'' \<longrightarrow> should_remove_img attrs = Inr False)
            \<longrightarrow> src_is_str_list kids
            \<longrightarrow> (\<exists>e. process_element self (Tag name attrs kids) parent = Inr (append_child e parent)
                    \<and> tag e = name \<and> map_of (attrib e) ''id'' = Some (strip x)))
         \<and> (name \<notin> set UNWRAP_TAGS
            \<longrightarrow> (\<exists>e. xprocess_element (init pa custom) (Tag name attrs kids) xparent
                        = append_child e xparent
                    \<and> tag e = convert_tag_name name \<and> map_of (attrib e) ''id'' = Some (strip x)))"
proof (intro conjI impI)
  assume nr: "\<not> (ultra_aggressive self \<and> re_match react_tabs_id x)"
    and img: "name = ''img'' \<longrightarrow> should_remove_img attrs = Inr False"
    and kids: "src_is_str_list kids"
  have keep: "should_preserve_attribute self ''id'' (Str x) name" for name
    using nr by (simp add: preserve_id)
  let ?e0 = "copy_attributes self name attrs (Element name [] None [])"
  have "list_ex (\<lambda>(attr_name, v). should_preserve_attribute self attr_name v ''span'') attrs"
    using assms(1) keep unfolding list_ex_iff by fastforce
  then have span: "\<not> should_simplify_span self attrs kids"
    by (simp add: should_simplify_span_def)
  from process_returns(2)[OF kids, of self ?e0] obtain e
    where e: "process_children self kids ?e0 = Inr e" "tag e = tag ?e0" "attrib e = attrib ?e0"
    by auto
  have r: "(if name = ''img'' then should_remove_img attrs else Inr False) = Inr False"
    using img by simp
  have "process_element self (Tag name attrs kids) parent = Inr (append_child e parent)"
    using assms(4) span e(1) r by simp
  moreover have "tag e = name" using e(2) by (simp add: copy_keeps)
  moreover have "map_of (attrib e) ''id'' = Some (strip x)"
    using e(3) copy_id[OF assms(1-3) keep] by simp
  ultimately show "\<exists>e. process_element self (Tag name attrs kids) parent = Inr (append_child e parent)
                    \<and> tag e = name \<and> map_of (attrib e) ''id'' = Some (strip x)"
    by blast
next
  assume nu: "name \<notin> set UNWRAP_TAGS"
  let ?self = "init pa custom"
  let ?e1 = "xcopy_attributes ?self attrs (Element (convert_tag_name name) [] None [])"
  let ?e2 = "if name = ''a'' \<and> ''href'' \<notin> fst ` set (attrib ?e1)
             then set_attr ''href'' [] ?e1 else ?e1"
  let ?e3 = "xprocess_children ?self kids ?e2"
  let ?e4 = "if kids = [] \<and> \<not> has_text (etext ?e3) then set_text [] ?e3 else ?e3"
  have "xprocess_element ?self (Tag name attrs kids) xparent = append_child ?e4 xparent"
    using assms(4) nu by (simp add: Let_def)
  moreover have "tag ?e4 = convert_tag_name name"
    by (simp add: xprocess_keeps xcopy_keeps)
  moreover have "map_of (attrib ?e4) ''id'' = Some (strip x)"
    using xcopy_id[OF assms(1-3) init_preserves_id, of pa custom]
    by (simp add: xprocess_keeps)
  ultimately show "\<exists>e. xprocess_element ?self (Tag name attrs kids) xparent = append_child e xparent
                    \<and> tag e = convert_tag_name name \<and> map_of (attrib e) ''id'' = Some (strip x)"
    by blast
qed

theorem id_attribute_preserved_witness:
  "(''id'', Str '' main '') \<in> set [(''class'', Lst [''mt-4'']), (''id'', Str '' main '')]
   \<and> distinct (map fst [(''class'', Lst [''mt-4'']), (''id'', Str '' main '')])
   \<and> strip '' main '' = ''main''
   \<and> ''div'' \<notin> set REMOVE_TAGS \<and> ''div'' \<notin> set UNWRAP_TAGS
   \<and> \<not> re_match react_tabs_id '' main ''
   \<and> src_is_str_list [NavigableString ''Hi'']
   \<and> (\<exists>e. process_element \<lparr>preserve_structure = True, aggressive_cleaning = True,
               ultra_aggressive = True, simplify_spans = True\<rparr>
              (Tag ''div'' [(''class'', Lst [''mt-4'']), (''id'', Str '' main '')] [NavigableString ''Hi''])
              (Element ''root'' [] None [])
            = Inr (append_child e (Element ''root'' [] None []))
          \<and> tag e = ''div'' \<and> map_of (attrib e) ''id'' = Some ''main'')
   \<and> (\<exists>e. xprocess_element (init True (Some {''lang''}))
              (Tag ''div'' [(''class'', Lst [''mt-4'']), (''id'', Str '' main '')] [NavigableString ''Hi''])
              (Element ''content'' [] None [])
            = append_child e (Element ''content'' [] None [])
          \<and> tag e = convert_tag_name ''div'' \<and> map_of (attrib e) ''id'' = Some ''main'')"
proof -
  have a: "(''id'', Str '' main '') \<in> set [(''class'', Lst [''mt-4'']), (''id'', Str '' main '')]"
    by simp
  have b: "distinct (map fst [(''class'', Lst [''mt-4'']), (''id'', Str '' main '')])" by simp
  have s: "strip '' main '' = ''main''" by (simp add: strip_def char_class_defs)
  then have c: "strip '' main '' \<noteq> []" by simp
  have d: "''div'' \<notin> set REMOVE_TAGS" by (simp add: REMOVE_TAGS_def)
  have u: "''div'' \<notin> set UNWRAP_TAGS" by (simp add: UNWRAP_TAGS_def)
  have r: "\<not> re_match react_tabs_id '' main ''"
    by (simp add: react_tabs_id_def chr_def plus_def)
  have k: "src_is_str_list [NavigableString ''Hi'']" by simp
  show ?thesis
    using a b s d u r k
      id_attribute_preserved[OF a b c d,
        of "\<lparr>preserve_structure = True, aggressive_cleaning = True,
               ultra_aggressive = True, simplify_spans = True\<rparr>"
           "[NavigableString ''Hi'']" "Element ''root'' [] None []"
           True "Some {''lang''}" "Element ''content'' [] None []"]
    by simp
qed

text \<open>Three inputs on which the \<open>id\<close> is lost: a generated \<open>react-tabs\<close> id in
  ultra-aggressive mode, an unwrapped tag, and a blank value.\<close>

theorem id_attribute_dropped:
  "process_element \<lparr>preserve_structure = True, aggressive_cleaning = True,
       ultra_aggressive = True, simplify_spans = False\<rparr>
     (Tag ''div'' [(''id'', Str ''react-tabs-12'')] []) (Element ''root'' [] None [])
   = Inr (Element ''root'' [] None [Element ''div'' [] None []])
   \<and> xprocess_element (init False None)
       (Tag ''b'' [(''id'', Str ''x'')] [NavigableString ''t'']) (Element ''content'' [] None [])
     = Element ''content'' [] (Some ''t'') []
   \<and> xprocess_element (init False None)
       (Tag ''p'' [(''id'', Str ''  '')] [NavigableString ''t'']) (Element ''content'' [] None [])
     = Element ''content'' [] None [Element ''p'' [] (Some ''t'') []]"
proof (intro conjI)
  show "process_element \<lparr>preserve_structure = True, aggressive_cleaning = True,
       ultra_aggressive = True, simplify_spans = False\<rparr>
     (Tag ''div'' [(''id'', Str ''react-tabs-12'')] []) (Element ''root'' [] None [])
   = Inr (Element ''root'' [] None [Element ''div'' [] None []])"
    by (simp add: REMOVE_TAGS_def should_simplify_span_def preserve_id react_tabs_id_def
        chr_def plus_def char_class_defs append_child_def)
  have t: "clean_text ''t'' = ''t''"
    by (simp add: clean_text_def strip_def escape_def escape_char_def char_class_defs)
  show "xprocess_element (init False None)
       (Tag ''b'' [(''id'', Str ''x'')] [NavigableString ''t'']) (Element ''content'' [] None [])
     = Element ''content'' [] (Some ''t'') []"
    using t by (simp add: REMOVE_TAGS_def UNWRAP_TAGS_def add_text_def set_text_def Let_def)
  have blank: "attr_string (Str ''  '') = []"
    by (simp add: attr_string_def strip_def char_class_defs)
  show "xprocess_element (init False None)
       (Tag ''p'' [(''id'', Str ''  '')] [NavigableString ''t'']) (Element ''content'' [] None [])
     = Element ''content'' [] None [Element ''p'' [] (Some ''t'') []]"
    using t blank by (simp add: REMOVE_TAGS_def UNWRAP_TAGS_def add_text_def set_text_def
        append_child_def convert_tag_name_def TAG_MAPPINGS_def char_class_defs Let_def)
qed

section \<open>Properties of the metadata\<close>

lemma record_meta_ok:
  assumes "\<forall>xs. py_or (get m ''name'') (get m ''property'') \<noteq> Some (Lst xs)"
  shows "\<exists>md'. record_meta m md = Inr md'
           \<and> (\<not> (py_or (get m ''name'') (get m ''property'') = Some (Str k)
                   \<and> truthy_opt (get m ''content''))
               \<longrightarrow> map_of md' k = map_of md k)"
proof (cases "py_or (get m ''name'') (get m ''property'')")
  case None
  then show ?thesis by (simp add: record_meta_def)
next
  case (Some a)
  with assms obtain key where "a = Str key" by (cases a) auto
  with Some show ?thesis
    by (auto simp: record_meta_def Let_def update_conv')
qed

lemma record_meta_hit:
  assumes "py_or (get m ''name'') (get m ''property'') = Some (Str k)" "k \<noteq> []"
    "get m ''content'' = Some v" "truthy v"
  shows "record_meta m md = Inr (AList.update k v md)"
  using assms by (simp add: record_meta_def)

lemma record_metas_ok:
  assumes "\<forall>m \<in> set ms. \<forall>xs. py_or (get m ''name'') (get m ''property'') \<noteq> Some (Lst xs)"
  shows "\<exists>md'. record_metas ms md = Inr md'
           \<and> ((\<forall>m \<in> set ms. \<not> (py_or (get m ''name'') (get m ''property'') = Some (Str k)
                                 \<and> truthy_opt (get m ''content'')))
               \<longrightarrow> map_of md' k = map_of md k)"
  using assms
proof (induction ms arbitrary: md)
  case Nil
  then show ?case by simp
next
  case (Cons m ms)
  from Cons.prems have h: "\<forall>xs. py_or (get m ''name'') (get m ''property'') \<noteq> Some (Lst xs)"
    and t: "\<forall>m \<in> set ms. \<forall>xs. py_or (get m ''name'') (get m ''property'') \<noteq> Some (Lst xs)"
    by simp_all
  from record_meta_ok[OF h, of md k] obtain md1 where md1: "record_meta m md = Inr md1"
    "\<not> (py_or (get m ''name'') (get m ''property'') = Some (Str k)
         \<and> truthy_opt (get m ''content'')) \<longrightarrow> map_of md1 k = map_of md k"
    by blast
  from Cons.IH[OF t, of md1] obtain md2 where md2: "record_metas ms md1 = Inr md2"
    "(\<forall>m \<in> set ms. \<not> (py_or (get m ''name'') (get m ''property'') = Some (Str k)
                        \<and> truthy_opt (get m ''content'')))
       \<longrightarrow> map_of md2 k = map_of md1 k"
    by blast
  show ?case using md1 md2 by auto
qed

lemma record_metas_append:
  "record_metas (xs @ ys) md =
     (case record_metas xs md of Inl e \<Rightarrow> Inl e | Inr md' \<Rightarrow> record_metas ys md')"
  by (induction xs arbitrary: md) (auto split: sum.splits)

text \<open>
  C6, as the code has it. When several \<open>meta\<close> tags of the head share a
  name-or-property key and have a non-empty content, the value recorded under that key
  is the content of the last of them: \<^verbatim>\<open>metadata[name] = content\<close> overwrites. The
  names of the other \<open>meta\<close> tags are strings, as the parser gives them.
\<close>

theorem meta_last_occurrence_wins:
  assumes head: "find ''head'' soup = Some (Tag hn hattrs hkids)"
    and metas: "find_all ''meta'' hkids = pre @ [m] @ post"
    and key: "py_or (get m ''name'') (get m ''property'') = Some (Str k)" "k \<noteq> []"
    and content: "get m ''content'' = Some v" "truthy v"
    and later: "\<forall>m' \<in> set post. \<not> (py_or (get m' ''name'') (get m' ''property'') = Some (Str k)
                                      \<and> truthy_opt (get m' ''content''))"
    and strings: "\<forall>m' \<in> set (pre @ post). \<forall>xs.
                    py_or (get m' ''name'') (get m' ''property'') \<noteq> Some (Lst xs)"
  shows "\<exists>md. extract_metadata soup = Inr md \<and> map_of md k = Some v"
proof -
  define md0 where "md0 = (case find ''title'' hkids of
                             None \<Rightarrow> []
                           | Some title \<Rightarrow> [(''title'', Str (clean_text (get_text title)))])"
  from strings have sp: "\<forall>m' \<in> set pre. \<forall>xs.
        py_or (get m' ''name'') (get m' ''property'') \<noteq> Some (Lst xs)"
    and spo: "\<forall>m' \<in> set post. \<forall>xs.
        py_or (get m' ''name'') (get m' ''property'') \<noteq> Some (Lst xs)"
    by simp_all
  from record_metas_ok[OF sp, of md0 k] obtain md1 where md1: "record_metas pre md0 = Inr md1"
    by blast
  have md2: "record_meta m md1 = Inr (AList.update k v md1)"
    by (rule record_meta_hit[OF key content])
  from record_metas_ok[OF spo, of "AList.update k v md1" k] later
  obtain md3 where md3: "record_metas post (AList.update k v md1) = Inr md3"
    "map_of md3 k = map_of (AList.update k v md1) k"
    by blast
  have "record_metas (pre @ [m] @ post) md0 = Inr md3"
    using md1 md2 md3(1) by (simp add: record_metas_append)
  then have "extract_metadata soup = Inr md3"
    using head metas by (simp add: extract_metadata_def md0_def)
  moreover have "map_of md3 k = Some v"
    using md3(2) by (simp add: update_conv')
  ultimately show ?thesis by blast
qed

theorem meta_last_occurrence_wins_witness:
  "find ''head''
     [Tag ''html'' []
        [Tag ''head'' []
           [Tag ''title'' [] [NavigableString ''T''],
            Tag ''meta'' [(''name'', Str ''description''), (''content'', Str ''first'')] [],
            Tag ''meta'' [(''property'', Str ''description''), (''content'', Str ''second'')] [],
            Tag ''meta'' [(''name'', Str ''keywords''), (''content'', Str ''kw'')] []]]]
   = Some (Tag ''head'' []
           [Tag ''title'' [] [NavigableString ''T''],
            Tag ''meta'' [(''name'', Str ''description''), (''content'', Str ''first'')] [],
            Tag ''meta'' [(''property'', Str ''description''), (''content'', Str ''second'')] [],
            Tag ''meta'' [(''name'', Str ''keywords''), (''content'', Str ''kw'')] []])
   \<and> (\<exists>md. extract_metadata
          [Tag ''html'' []
             [Tag ''head'' []
                [Tag ''title'' [] [NavigableString ''T''],
                 Tag ''meta'' [(''name'', Str ''description''), (''content'', Str ''first'')] [],
                 Tag ''meta'' [(''property'', Str ''description''), (''content'', Str ''second'')] [],
                 Tag ''meta'' [(''name'', Str ''keywords''), (''content'', Str ''kw'')] []]]]
          = Inr md
        \<and> map_of md ''description'' = Some (Str ''second''))"
proof -
  let ?m1 = "Tag ''meta'' [(''name'', Str ''description''), (''content'', Str ''first'')] []"
  let ?m2 = "Tag ''meta'' [(''property'', Str ''description''), (''content'', Str ''second'')] []"
  let ?m3 = "Tag ''meta'' [(''name'', Str ''keywords''), (''content'', Str ''kw'')] []"
  let ?hk = "[Tag ''title'' [] [NavigableString ''T''], ?m1, ?m2, ?m3]"
  let ?doc = "[Tag ''html'' [] [Tag ''head'' [] ?hk]]"
  have head: "find ''head'' ?doc = Some (Tag ''head'' [] ?hk)" by simp
  have metas: "find_all ''meta'' ?hk = [?m1] @ [?m2] @ [?m3]" by simp
  have key: "py_or (get ?m2 ''name'') (get ?m2 ''property'') = Some (Str ''description'')"
    "''description'' \<noteq> []"
    by (simp_all add: py_or_def)
  have content: "get ?m2 ''content'' = Some (Str ''second'')" "truthy (Str ''second'')"
    by simp_all
  have later: "\<forall>m' \<in> set [?m3].
      \<not> (py_or (get m' ''name'') (get m' ''property'') = Some (Str ''description'')
         \<and> truthy_opt (get m' ''content''))"
    by (simp add: py_or_def)
  have strings: "\<forall>m' \<in> set ([?m1] @ [?m3]). \<forall>xs.
      py_or (get m' ''name'') (get m' ''property'') \<noteq> Some (Lst xs)"
    by (simp add: py_or_def)
  show ?thesis
    using head meta_last_occurrence_wins[OF head metas key content later strings]
    by blast
qed

text \<open>Two \<open>meta\<close> tags named \<open>description\<close>: the second content is recorded, not
  the first.\<close>

theorem meta_first_occurrence_overwritten:
  "extract_metadata
     [Tag ''html'' []
        [Tag ''head'' []
           [Tag ''meta'' [(''name'', Str ''description''), (''content'', Str ''first'')] [],
            Tag ''meta'' [(''name'', Str ''description''), (''content'', Str ''second'')] []]]]
   = Inr [(''description'', Str ''second'')]"
  by (simp add: extract_metadata_def record_meta_def py_or_def)

section \<open>Properties of the text normalizers\<close>

lemma no_space_runs_Cons:
  "no_space_runs (a # r) = ((r = [] \<or> \<not> (isspace a \<and> isspace (hd r))) \<and> no_space_runs r)"
  by (cases r) auto

lemma no_space_runs_append:
  "no_space_runs (x @ y) =
     (no_space_runs x \<and> no_space_runs y
      \<and> (x = [] \<or> y = [] \<or> \<not> (isspace (last x) \<and> isspace (hd y))))"
proof (induction x)
  case Nil
  then show ?case by simp
next
  case (Cons a x)
  show ?case
  proof (cases x)
    case Nil
    then show ?thesis by (cases y) auto
  next
    case (Cons b x')
    with Cons.IH show ?thesis by auto
  qed
qed

lemma sub_spaces_runs:
  "no_space_runs (sub_spaces prev s)
   \<and> (prev \<longrightarrow> sub_spaces prev s = [] \<or> \<not> isspace (hd (sub_spaces prev s)))"
proof (induction s arbitrary: prev)
  case Nil
  then show ?case by simp
next
  case (Cons c cs)
  show ?case
    using Cons.IH[of True] Cons.IH[of False]
    by (auto simp: no_space_runs_Cons)
qed

lemma strip_split: "\<exists>a b. s = a @ strip s @ b"
proof -
  let ?d = "dropWhile isspace s"
  have "s = takeWhile isspace s @ ?d" by simp
  moreover have "rev ?d = takeWhile isspace (rev ?d) @ dropWhile isspace (rev ?d)" by simp
  then have "?d = rev (dropWhile isspace (rev ?d)) @ rev (takeWhile isspace (rev ?d))"
    by (metis rev_append rev_rev_ident)
  ultimately have "s = takeWhile isspace s @ strip s @ rev (takeWhile isspace (rev ?d))"
    unfolding strip_def by metis
  then show ?thesis by blast
qed

lemma strip_runs: "no_space_runs s \<Longrightarrow> no_space_runs (strip s)"
proof -
  assume a: "no_space_runs s"
  obtain x y where "s = x @ strip s @ y" using strip_split by blast
  with a have "no_space_runs (x @ strip s @ y)" by simp
  then show ?thesis by (simp add: no_space_runs_append)
qed

lemma strip_trimmed: "trimmed (strip s)"
proof (cases "strip s = []")
  case True
  then show ?thesis by (simp add: trimmed_def)
next
  case False
  let ?d = "dropWhile isspace s"
  let ?r = "dropWhile isspace (rev ?d)"
  from False have r: "?r \<noteq> []" by (simp add: strip_def)
  then have d: "?d \<noteq> []" by (metis dropWhile.simps(1) rev.simps(1))
  have "last (strip s) = hd ?r" using r by (simp add: strip_def last_rev)
  moreover have "\<not> isspace (hd ?r)" using r by (rule hd_dropWhile)
  moreover have "\<not> isspace (hd ?d)" using d by (rule hd_dropWhile)
  moreover have "hd (strip s) = hd ?d"
  proof -
    have "rev ?d = takeWhile isspace (rev ?d) @ ?r" by simp
    then have "?d = rev ?r @ rev (takeWhile isspace (rev ?d))"
      by (metis rev_append rev_rev_ident)
    then have "hd ?d = hd (rev ?r)" using r by (metis hd_append2 rev_is_Nil_conv)
    then show ?thesis by (simp add: strip_def)
  qed
  ultimately show ?thesis by (simp add: trimmed_def)
qed

lemma escaped_append: "escaped a \<Longrightarrow> escaped b \<Longrightarrow> escaped (a @ b)"
  by (induction a) (auto simp: prefix_def)

lemma escaped_escape_char: "escaped (escape_char c)"
  by (simp add: escape_char_def)

lemma escaped_escape: "escaped (escape s)"
  unfolding escape_def
  by (induction s) (simp_all add: escaped_append escaped_escape_char)

lemma special_not_space:
  "\<not> isspace (CHR ''&'')" "\<not> isspace (CHR ''<'')" "\<not> isspace (CHR ''>'')"
  "\<not> isspace (CHR '';'')"
  by (simp_all add: isspace_def code_def)

lemma escape_char_shape:
  "escape_char c \<noteq> []"
  "isspace (hd (escape_char c)) = isspace c"
  "isspace (last (escape_char c)) = isspace c"
  "no_space_runs (escape_char c)"
  using special_not_space by (auto simp: escape_char_def isspace_def code_def)

lemma escape_Cons: "escape (c # cs) = escape_char c @ escape cs"
  by (simp add: escape_def)

lemma escape_Nil: "escape [] = []"
  by (simp add: escape_def)

lemma escape_eq_Nil: "(escape s = []) = (s = [])"
  by (cases s) (simp_all add: escape_Nil escape_Cons escape_char_shape)

lemma hd_escape: "s \<noteq> [] \<Longrightarrow> isspace (hd (escape s)) = isspace (hd s)"
  by (cases s) (simp_all add: escape_Cons escape_char_shape)

lemma last_escape: "s \<noteq> [] \<Longrightarrow> isspace (last (escape s)) = isspace (last s)"
proof (induction s)
  case Nil
  then show ?case by simp
next
  case (Cons c cs)
  show ?case
  proof (cases "cs = []")
    case True
    then show ?thesis by (simp add: escape_Cons escape_Nil escape_char_shape)
  next
    case False
    then have "escape cs \<noteq> []" by (simp add: escape_eq_Nil)
    then show ?thesis using False Cons.IH by (simp add: escape_Cons)
  qed
qed

lemma escape_runs: "no_space_runs s \<Longrightarrow> no_space_runs (escape s)"
proof (induction s)
  case Nil
  then show ?case by (simp add: escape_Nil)
next
  case (Cons c cs)
  show ?case
  proof (cases "cs = []")
    case True
    then show ?thesis by (simp add: escape_Cons escape_Nil escape_char_shape)
  next
    case False
    from Cons.prems have "no_space_runs cs" "\<not> (isspace c \<and> isspace (hd cs))"
      using False by (simp_all add: no_space_runs_Cons)
    then show ?thesis
      using Cons.IH False
      by (simp add: escape_Cons no_space_runs_append escape_char_shape hd_escape)
  qed
qed

lemma escape_trimmed: "trimmed s \<Longrightarrow> trimmed (escape s)"
  by (auto simp: trimmed_def escape_eq_Nil hd_escape last_escape)

lemma clean_text_normalized: "normalized (clean_text s)"
proof (cases "s = []")
  case True
  then show ?thesis by (simp add: clean_text_def normalized_def trimmed_def)
next
  case False
  have "no_space_runs (strip (sub_spaces False s))"
    using sub_spaces_runs[of False s] by (simp add: strip_runs)
  then show ?thesis
    using False
    by (simp add: clean_text_def normalized_def escape_runs escape_trimmed strip_trimmed
        escaped_escape)
qed

lemma normalized_join:
  assumes "normalized t" "t \<noteq> []" "normalized p" "p \<noteq> []"
  shows "normalized (t @ '' '' @ p)"
proof -
  from assms have "\<not> isspace (last t)" "\<not> isspace (hd p)" "\<not> isspace (hd t)" "\<not> isspace (last p)"
    by (auto simp: normalized_def trimmed_def)
  moreover have "escaped '' ''" by simp
  ultimately show ?thesis
    using assms
    by (auto simp: normalized_def trimmed_def no_space_runs_append no_space_runs_Cons
        escaped_append)
qed


lemma texts_normalized_iff:
  "texts_normalized e =
     ((case etext e of None \<Rightarrow> True | Some s \<Rightarrow> normalized s)
      \<and> texts_normalized_list (children e))"
  by (cases e) simp

lemma texts_normalized_list_snoc:
  "texts_normalized_list (xs @ [c]) = (texts_normalized_list xs \<and> texts_normalized c)"
  by (induction xs) auto

lemma add_text_normalized:
  assumes "texts_normalized e" "normalized t" "t \<noteq> []"
  shows "texts_normalized (add_text '' '' t e)"
proof (cases "has_text (etext e)")
  case True
  then obtain s where s: "etext e = Some s" "s \<noteq> []" by (cases "etext e") auto
  with assms(1) have "normalized s" by (simp add: texts_normalized_iff)
  then have "normalized (s @ '' '' @ t)" using s(2) assms(2,3) by (rule normalized_join)
  then show ?thesis
    using True s assms(1) by (simp add: add_text_def texts_normalized_iff)
next
  case False
  then show ?thesis
    using assms by (simp add: add_text_def texts_normalized_iff)
qed

lemma empty_text_normalized:
  "texts_normalized e \<Longrightarrow> texts_normalized (if c then set_text [] e else e)"
  by (simp add: texts_normalized_iff normalized_def trimmed_def)

lemma xprocess_normalized:
  "texts_normalized p \<Longrightarrow> texts_normalized (xprocess_element self n p)"
  "texts_normalized p \<Longrightarrow> texts_normalized (xprocess_children self ns p)"
proof (induction self n p and self ns p rule: xprocess_element_xprocess_children.induct)
  case (1 self s parent)
  then show ?case by (simp add: Let_def add_text_normalized clean_text_normalized)
next
  case (2 self s parent)
  then show ?case by (simp add: Let_def add_text_normalized clean_text_normalized)
next
  case (3 self name attrs kids parent)
  let ?e1 = "xcopy_attributes self attrs (Element (convert_tag_name name) [] None [])"
  let ?e2 = "if name = ''a'' \<and> ''href'' \<notin> fst ` set (attrib ?e1)
             then set_attr ''href'' [] ?e1 else ?e1"
  let ?e3 = "xprocess_children self kids ?e2"
  let ?e4 = "if kids = [] \<and> \<not> has_text (etext ?e3) then set_text [] ?e3 else ?e3"
  show ?case
  proof (cases "name \<in> set REMOVE_TAGS")
    case True
    then show ?thesis using "3.prems" by simp
  next
    case nr: False
    show ?thesis
    proof (cases "name \<in> set UNWRAP_TAGS")
      case True
      then show ?thesis using nr "3.prems" "3.IH"(1) by simp
    next
      case nu: False
      have "texts_normalized ?e2"
        by (simp add: texts_normalized_iff xcopy_keeps)
      then have "texts_normalized ?e3"
        using "3.IH"(2)[OF nr nu refl refl refl] by simp
      then have "texts_normalized ?e4"
        by (rule empty_text_normalized)
      then have "texts_normalized (append_child ?e4 parent)"
        using "3.prems" by (simp add: texts_normalized_iff texts_normalized_list_snoc)
      then show ?thesis using nr nu by (simp add: Let_def)
    qed
  qed
next
  case (4 self xml_elem)
  then show ?case by simp
next
  case (5 self child rest xml_elem)
  then show ?case by simp
qed

text \<open>
  C4, as the code has it. The invariant holds for the semantic-mapping tree builder:
  when every text of the parent is normalized, so is every text of the tree that
  \<open>xprocess_element\<close> returns, for every node and configuration (a fresh parent has
  no text). The structural builder does not escape.
\<close>

theorem semantic_mapping_text_normalized:
  assumes "texts_normalized parent"
  shows "texts_normalized (xprocess_element self node parent)"
  using assms by (rule xprocess_normalized(1))

theorem semantic_mapping_text_normalized_witness:
  "texts_normalized (Element ''content'' [] (Some ''a &amp; b'') [])
   \<and> texts_normalized (xprocess_element (init False None)
        (Tag ''p'' [] [NavigableString ''  x <  y  '', Tag ''b'' [] [NavigableString ''&'']])
        (Element ''content'' [] (Some ''a &amp; b'') []))"
proof -
  have n: "normalized ''a &amp; b''"
    by (simp add: normalized_def trimmed_def isspace_def code_def)
  then have a: "texts_normalized (Element ''content'' [] (Some ''a &amp; b'') [])" by simp
  show ?thesis
    using a semantic_mapping_text_normalized[OF a] by blast
qed

text \<open>The structural builder attaches \<open>a<b\<close> as it is, and leaves two spaces
  where it removed an empty pair of parentheses.\<close>

theorem structural_text_not_escaped:
  "process_element \<lparr>preserve_structure = True, aggressive_cleaning = True,
       ultra_aggressive = False, simplify_spans = False\<rparr>
     (NavigableString ''a<b'') (Element ''p'' [] None [])
   = Inr (Element ''p'' [] (Some ''a<b'') [])
   \<and> \<not> escaped ''a<b''
   \<and> \<not> texts_normalized (Element ''p'' [] (Some ''a<b'') [])
   \<and> process_element \<lparr>preserve_structure = True, aggressive_cleaning = True,
       ultra_aggressive = False, simplify_spans = False\<rparr>
     (NavigableString ''a ( ) b'') (Element ''p'' [] None [])
   = Inr (Element ''p'' [] (Some ''a  b'') [])
   \<and> \<not> no_space_runs ''a  b''"
proof -
  have c: "aggressive_text_clean ''a<b'' = ''a<b''"
    by (simp add: aggressive_text_clean_def strip_def isspace_def code_def)
  have d: "aggressive_text_clean ''a ( ) b'' = ''a  b''"
    by (simp add: aggressive_text_clean_def strip_def isspace_def code_def)
  show ?thesis
    using c d by (simp add: add_text_def set_text_def normalized_def isspace_def code_def)
qed

end
